theory Spec2Isabelle
  imports Main "HOL-Library.FSet" "HOL-Library.Log_Nat"
begin

section \<open>Python strings\<close>

text \<open>
  The converter \<^verbatim>\<open>wikidump_to_html.py\<close> works on Python \<^verbatim>\<open>str\<close> values. They are
  modelled as Isabelle strings, read as sequences of code points below 256 (Latin-1): a
  \<^typ>\<open>char\<close> is the code point \<open>of_char c\<close>. The character classes below are Python
  3.11's on that range.
\<close>

definition ord :: "char \<Rightarrow> nat" where
  "ord c = of_char c"

text \<open>\<^verbatim>\<open>str.isspace\<close>, which is also the class \<^verbatim>\<open>\s\<close> of \<^verbatim>\<open>re\<close> on \<^verbatim>\<open>str\<close> patterns.\<close>

definition is_space :: "char \<Rightarrow> bool" where
  "is_space c = (let n = ord c in (9 \<le> n \<and> n \<le> 13) \<or> (28 \<le> n \<and> n \<le> 32) \<or> n = 133 \<or> n = 160)"

definition is_digit :: "char \<Rightarrow> bool" where
  "is_digit c = (let n = ord c in 48 \<le> n \<and> n \<le> 57)"

definition is_lower_az :: "char \<Rightarrow> bool" where
  "is_lower_az c = (let n = ord c in 97 \<le> n \<and> n \<le> 122)"

text \<open>\<^verbatim>\<open>str.lower\<close> on one code point below 256.\<close>

definition lower_char :: "char \<Rightarrow> char" where
  "lower_char c = (let n = ord c in
     if (65 \<le> n \<and> n \<le> 90) \<or> (192 \<le> n \<and> n \<le> 222 \<and> n \<noteq> 215) then char_of (n + 32) else c)"

definition lower :: "string \<Rightarrow> string" where
  "lower s = map lower_char s"

definition lstrip_with :: "(char \<Rightarrow> bool) \<Rightarrow> string \<Rightarrow> string" where
  "lstrip_with p s = dropWhile p s"

definition rstrip_with :: "(char \<Rightarrow> bool) \<Rightarrow> string \<Rightarrow> string" where
  "rstrip_with p s = rev (dropWhile p (rev s))"

definition strip_with :: "(char \<Rightarrow> bool) \<Rightarrow> string \<Rightarrow> string" where
  "strip_with p s = rstrip_with p (lstrip_with p s)"

text \<open>\<^verbatim>\<open>s.strip()\<close>, \<^verbatim>\<open>s.lstrip()\<close>, \<^verbatim>\<open>s.rstrip()\<close> and \<^verbatim>\<open>s.strip(chars)\<close>.\<close>

definition strip :: "string \<Rightarrow> string" where
  "strip s = strip_with is_space s"

definition lstrip :: "string \<Rightarrow> string" where
  "lstrip s = lstrip_with is_space s"

definition rstrip :: "string \<Rightarrow> string" where
  "rstrip s = rstrip_with is_space s"

definition strip_chars :: "string \<Rightarrow> string \<Rightarrow> string" where
  "strip_chars chars s = strip_with (\<lambda>c. c \<in> set chars) s"

text \<open>\<^verbatim>\<open>s.startswith(t)\<close> and \<^verbatim>\<open>t in s\<close>.\<close>

fun startswith :: "string \<Rightarrow> string \<Rightarrow> bool" where
  "startswith s [] = True"
| "startswith [] (t # ts) = False"
| "startswith (c # cs) (t # ts) = (c = t \<and> startswith cs ts)"

fun contains :: "string \<Rightarrow> string \<Rightarrow> bool" where
  "contains [] t = (t = [])"
| "contains (c # cs) t = (startswith (c # cs) t \<or> contains cs t)"

text \<open>\<^verbatim>\<open>sep.join(xs)\<close>.\<close>

fun join :: "string \<Rightarrow> string list \<Rightarrow> string" where
  "join sep [] = []"
| "join sep [x] = x"
| "join sep (x # y # ys) = x @ sep @ join sep (y # ys)"

text \<open>
  \<^verbatim>\<open>s.split(sep)\<close> for a non-empty separator: the pieces between the non-overlapping
  occurrences of \<open>sep\<close>, found from the left. \<open>split_acc\<close> carries the piece read so far,
  reversed.
\<close>

fun split_acc :: "string \<Rightarrow> string \<Rightarrow> string \<Rightarrow> string list" where
  "split_acc sep acc [] = [rev acc]"
| "split_acc sep acc (c # cs) =
     (if sep \<noteq> [] \<and> startswith (c # cs) sep
      then rev acc # split_acc sep [] (drop (length sep) (c # cs))
      else split_acc sep (c # acc) cs)"

definition split :: "string \<Rightarrow> string \<Rightarrow> string list" where
  "split sep s = split_acc sep [] s"

text \<open>\<^verbatim>\<open>s.split(sep, 1)\<close>: at most one cut, at the first occurrence.\<close>

fun split1_acc :: "string \<Rightarrow> string \<Rightarrow> string \<Rightarrow> string list" where
  "split1_acc sep acc [] = [rev acc]"
| "split1_acc sep acc (c # cs) =
     (if sep \<noteq> [] \<and> startswith (c # cs) sep
      then [rev acc, drop (length sep) (c # cs)]
      else split1_acc sep (c # acc) cs)"

definition split1 :: "string \<Rightarrow> string \<Rightarrow> string list" where
  "split1 sep s = split1_acc sep [] s"

text \<open>\<^verbatim>\<open>s.replace(old, new)\<close> for a non-empty \<open>old\<close>.\<close>

definition replace :: "string \<Rightarrow> string \<Rightarrow> string \<Rightarrow> string" where
  "replace old new s = join new (split old s)"

text \<open>\<^verbatim>\<open>str(n)\<close> for a natural number, as an f-string prints it.\<close>

definition digit_char :: "nat \<Rightarrow> char" where
  "digit_char d = char_of (48 + d)"

function str_nat :: "nat \<Rightarrow> string" where
  "str_nat n = (if n < 10 then [digit_char n] else str_nat (n div 10) @ [digit_char (n mod 10)])"
  by pat_completeness auto
termination
  by (relation "measure id") auto

declare str_nat.simps [simp del]

text \<open>\<^verbatim>\<open>html.escape(s)\<close>, with its default \<^verbatim>\<open>quote=True\<close>.\<close>

definition escape_char :: "char \<Rightarrow> string" where
  "escape_char c =
     (if c = CHR ''&'' then ''&amp;''
      else if c = CHR ''<'' then ''&lt;''
      else if c = CHR ''>'' then ''&gt;''
      else if c = CHR 0x22 then ''&quot;''
      else if c = CHR 0x27 then ''&#x27;''
      else [c])"

definition escape :: "string \<Rightarrow> string" where
  "escape s = concat (map escape_char s)"

section \<open>Regular expressions\<close>

text \<open>
  The patterns of the program are terms of \<open>re\<close>, and \<open>matches\<close> is the backtracking
  matcher of Python's \<^verbatim>\<open>re\<close>: it returns every way the pattern can match a prefix of
  the text, as the rest of the text and the groups captured, in the order in which the
  matcher tries them. The first element is the match Python reports. Every quantifier of
  the program's patterns stands on a character class (\<open>Star\<close>, \<open>StarLazy\<close>) or is an
  optional group (\<open>Opt\<close>).
\<close>

type_synonym groups = "(nat \<times> string) list"

datatype re =
    Cls "char \<Rightarrow> bool"
  | Lit string
  | LitI string
  | Seq re re
  | Alt re re
  | Star "char \<Rightarrow> bool"
  | StarLazy "char \<Rightarrow> bool"
  | Opt re
  | Grp nat re
  | BrefI nat
  | Eol

fun startswith_ci :: "string \<Rightarrow> string \<Rightarrow> bool" where
  "startswith_ci s [] = True"
| "startswith_ci [] (t # ts) = False"
| "startswith_ci (c # cs) (t # ts) = (lower_char c = lower_char t \<and> startswith_ci cs ts)"

text \<open>The rests a greedy (longest first) and a lazy (shortest first) star can leave.\<close>

fun star_rests :: "(char \<Rightarrow> bool) \<Rightarrow> string \<Rightarrow> string list" where
  "star_rests p [] = [[]]"
| "star_rests p (c # cs) = (if p c then star_rests p cs @ [c # cs] else [c # cs])"

fun lazy_rests :: "(char \<Rightarrow> bool) \<Rightarrow> string \<Rightarrow> string list" where
  "lazy_rests p [] = [[]]"
| "lazy_rests p (c # cs) = (c # cs) # (if p c then lazy_rests p cs else [])"

fun matches :: "re \<Rightarrow> string \<Rightarrow> groups \<Rightarrow> (string \<times> groups) list" where
  "matches (Cls p) s g = (case s of [] \<Rightarrow> [] | c # cs \<Rightarrow> if p c then [(cs, g)] else [])"
| "matches (Lit t) s g = (if startswith s t then [(drop (length t) s, g)] else [])"
| "matches (LitI t) s g = (if startswith_ci s t then [(drop (length t) s, g)] else [])"
| "matches (Seq a b) s g = concat (map (\<lambda>(s', g'). matches b s' g') (matches a s g))"
| "matches (Alt a b) s g = matches a s g @ matches b s g"
| "matches (Star p) s g = map (\<lambda>s'. (s', g)) (star_rests p s)"
| "matches (StarLazy p) s g = map (\<lambda>s'. (s', g)) (lazy_rests p s)"
| "matches (Opt a) s g = matches a s g @ [(s, g)]"
| "matches (Grp n a) s g =
     map (\<lambda>(s', g'). (s', (n, take (length s - length s') s) # g')) (matches a s g)"
| "matches (BrefI n) s g =
     (case map_of g n of
        None \<Rightarrow> []
      | Some t \<Rightarrow> if startswith_ci s t then [(drop (length t) s, g)] else [])"
| "matches Eol s g = (if s = [] \<or> s = [CHR 0x0A] then [(s, g)] else [])"

definition Plus :: "(char \<Rightarrow> bool) \<Rightarrow> re" where
  "Plus p = Seq (Cls p) (Star p)"

definition PlusLazy :: "(char \<Rightarrow> bool) \<Rightarrow> re" where
  "PlusLazy p = Seq (Cls p) (StarLazy p)"

fun seqs :: "re list \<Rightarrow> re" where
  "seqs [] = Lit []"
| "seqs [r] = r"
| "seqs (r # rs) = Seq r (seqs rs)"

text \<open>\<^verbatim>\<open>pattern.match(s)\<close>: the groups of the first match at the start of \<open>s\<close>.\<close>

definition re_match :: "re \<Rightarrow> string \<Rightarrow> groups option" where
  "re_match r s = (case matches r s [] of [] \<Rightarrow> None | (rest, g) # _ \<Rightarrow> Some g)"

text \<open>\<^verbatim>\<open>pattern.search(s)\<close>: the text before the leftmost match, the rest after it, its groups.\<close>

fun re_search :: "re \<Rightarrow> string \<Rightarrow> (string \<times> string \<times> groups) option" where
  "re_search r [] = (case matches r [] [] of [] \<Rightarrow> None | (rest, g) # _ \<Rightarrow> Some ([], rest, g))"
| "re_search r (c # cs) =
     (case matches r (c # cs) [] of
        (rest, g) # _ \<Rightarrow> Some ([], rest, g)
      | [] \<Rightarrow> map_option (\<lambda>(pre, rest, g). (c # pre, rest, g)) (re_search r cs))"

text \<open>
  \<^verbatim>\<open>pattern.sub(repl, s)\<close> with a function \<open>repl\<close> that may update a state (the closure
  variables of the caller): the leftmost non-overlapping matches are replaced, from left to
  right. \<open>adv\<close> is the matcher's \<^verbatim>\<open>must_advance\<close> flag: after an empty match the next match
  at the same place must be non-empty.
\<close>

function sub_scan ::
  "re \<Rightarrow> (string \<Rightarrow> groups \<Rightarrow> 'st \<Rightarrow> string \<times> 'st) \<Rightarrow> bool \<Rightarrow> string \<Rightarrow> 'st \<Rightarrow> string \<times> 'st" where
  "sub_scan r f adv s st =
     (case List.find (\<lambda>(rest, g). length rest < length s \<or> \<not> adv) (matches r s []) of
        Some (rest, g) \<Rightarrow>
          (let (out, st1) = f (take (length s - length rest) s) g st in
           if length rest < length s
           then (let (out2, st2) = sub_scan r f False rest st1 in (out @ out2, st2))
           else if adv then (out, st1)
           else (let (out2, st2) = sub_scan r f True s st1 in (out @ out2, st2)))
      | None \<Rightarrow>
          (case s of
             [] \<Rightarrow> ([], st)
           | c # cs \<Rightarrow> (let (out2, st2) = sub_scan r f False cs st in (c # out2, st2))))"
  by pat_completeness auto
termination
  by (relation "measures [\<lambda>(r, f, adv, s, st). length s, \<lambda>(r, f, adv, s, st). if adv then 0 else 1]")
    auto

declare sub_scan.simps [simp del]

definition re_sub_st ::
  "re \<Rightarrow> (string \<Rightarrow> groups \<Rightarrow> 'st \<Rightarrow> string \<times> 'st) \<Rightarrow> string \<Rightarrow> 'st \<Rightarrow> string \<times> 'st" where
  "re_sub_st r f s st = sub_scan r f False s st"

definition re_sub :: "re \<Rightarrow> (string \<Rightarrow> groups \<Rightarrow> string) \<Rightarrow> string \<Rightarrow> string" where
  "re_sub r f s = fst (re_sub_st r (\<lambda>m g u. (f m g, u)) s ())"

text \<open>\<^verbatim>\<open>match.group(n)\<close>; \<open>None\<close> is a group that took no part in the match.\<close>

definition group :: "groups \<Rightarrow> nat \<Rightarrow> string option" where
  "group g n = map_of g n"

section \<open>Slugs\<close>

text \<open>
  \<^verbatim>\<open>unicodedata.normalize("NFKD", s).encode("ascii", "ignore").decode("ascii")\<close>: on
  code points below 256 the compatibility decomposition works character by character, and
  the encoding drops what is not ASCII. \<open>nfkd_ascii_char\<close> is the table of Python
  3.11's Unicode data on that range.
\<close>

definition nfkd_ascii_char :: "char \<Rightarrow> string" where
  "nfkd_ascii_char c = (let n = ord c in
     if n < 128 then [c]
     else if n \<in> {160, 168, 175, 180, 184} then '' ''
     else if n = 170 then ''a''
     else if n = 178 then ''2''
     else if n = 179 then ''3''
     else if n = 185 then ''1''
     else if n = 186 then ''o''
     else if n = 188 then ''14''
     else if n = 189 then ''12''
     else if n = 190 then ''34''
     else if 192 \<le> n \<and> n \<le> 197 then ''A''
     else if n = 199 then ''C''
     else if 200 \<le> n \<and> n \<le> 203 then ''E''
     else if 204 \<le> n \<and> n \<le> 207 then ''I''
     else if n = 209 then ''N''
     else if 210 \<le> n \<and> n \<le> 214 then ''O''
     else if 217 \<le> n \<and> n \<le> 220 then ''U''
     else if n = 221 then ''Y''
     else if 224 \<le> n \<and> n \<le> 229 then ''a''
     else if n = 231 then ''c''
     else if 232 \<le> n \<and> n \<le> 235 then ''e''
     else if 236 \<le> n \<and> n \<le> 239 then ''i''
     else if n = 241 then ''n''
     else if 242 \<le> n \<and> n \<le> 246 then ''o''
     else if 249 \<le> n \<and> n \<le> 252 then ''u''
     else if n = 253 \<or> n = 255 then ''y''
     else [])"

definition nfkd_ascii :: "string \<Rightarrow> string" where
  "nfkd_ascii s = concat (map nfkd_ascii_char s)"

text \<open>\<^verbatim>\<open>_slug_strip_re = re.compile(r"[^a-z0-9]+")\<close>\<close>

definition slug_strip_re :: re where
  "slug_strip_re = Plus (\<lambda>c. \<not> (is_lower_az c \<or> is_digit c))"

definition slug_core :: "string \<Rightarrow> string" where
  "slug_core t = strip_chars ''-'' (re_sub slug_strip_re (\<lambda>m g. ''-'') (lower (nfkd_ascii t)))"

text \<open>The candidate \<^verbatim>\<open>f"{base}-{i}"\<close> of the loop in \<^verbatim>\<open>slugify\<close>.\<close>

definition numbered :: "string \<Rightarrow> nat \<Rightarrow> string" where
  "numbered base i = base @ ''-'' @ str_nat i"

text \<open>Printing a number is injective, so the candidates are pairwise distinct and the loop ends.\<close>

fun digits_val :: "string \<Rightarrow> nat" where
  "digits_val [] = 0"
| "digits_val (c # cs) = (ord c - 48) * 10 ^ length cs + digits_val cs"

lemma digits_val_snoc: "digits_val (xs @ [c]) = 10 * digits_val xs + (ord c - 48)"
  by (induction xs) (simp_all add: algebra_simps)

lemma ord_digit_char: "d < 10 \<Longrightarrow> ord (digit_char d) - 48 = d"
  by (simp add: ord_def digit_char_def)

lemma digits_val_str_nat: "digits_val (str_nat n) = n"
proof (induction n rule: str_nat.induct)
  case (1 n)
  show ?case
  proof (cases "n < 10")
    case True
    then show ?thesis by (subst str_nat.simps) (simp add: ord_digit_char)
  next
    case False
    with 1 have "digits_val (str_nat (n div 10)) = n div 10" by simp
    with False show ?thesis
      by (subst str_nat.simps) (simp add: digits_val_snoc ord_digit_char)
  qed
qed

lemma str_nat_inj: "str_nat m = str_nat n \<Longrightarrow> m = n"
  by (metis digits_val_str_nat)

lemma numbered_inj: "numbered b m = numbered b n \<Longrightarrow> m = n"
  by (simp add: numbered_def str_nat_inj)

lemma finite_numbered: "finite {j. numbered b j |\<in>| used}"
proof -
  have "{j. numbered b j |\<in>| used} = numbered b -` fset used" by auto
  moreover have "inj (numbered b)" by (auto intro: injI dest: numbered_inj)
  ultimately show ?thesis by (simp add: finite_vimageI)
qed

function slugify_loop :: "string \<Rightarrow> string fset \<Rightarrow> string \<Rightarrow> nat \<Rightarrow> string" where
  "slugify_loop base used slug i =
     (if slug |\<in>| used then slugify_loop base used (numbered base i) (i + 1) else slug)"
  by pat_completeness auto
termination
proof (relation "measure (\<lambda>(base, used, slug, i).
    card {j. i \<le> j \<and> numbered base j |\<in>| used} + (if slug |\<in>| used then 1 else 0))")
  show "wf (measure (\<lambda>(base, used, slug, i).
    card {j. i \<le> j \<and> numbered base j |\<in>| used} + (if slug |\<in>| used then 1 else 0)))"
    by simp
next
  fix base :: string and used :: "string fset" and slug :: string and i :: nat
  assume "slug |\<in>| used"
  let ?A = "\<lambda>k. {j. k \<le> j \<and> numbered base j |\<in>| used}"
  have fin: "finite (?A k)" for k
    by (rule finite_subset [OF _ finite_numbered [of base used]]) auto
  have "card (?A (i + 1)) + (if numbered base i |\<in>| used then 1 else 0) = card (?A i)"
  proof (cases "numbered base i |\<in>| used")
    case True
    then have "?A i = insert i (?A (i + 1))" by (auto simp: le_Suc_eq)
    moreover have "i \<notin> ?A (i + 1)" by simp
    ultimately show ?thesis using True fin [of "i + 1"] by simp
  next
    case False
    then have "?A i = ?A (i + 1)"
      by (auto simp: Suc_le_eq) (metis le_neq_implies_less)
    then show ?thesis using False by simp
  qed
  with \<open>slug |\<in>| used\<close>
  show "((base, used, numbered base i, i + 1), (base, used, slug, i)) \<in> measure (\<lambda>(base, used, slug, i).
    card {j. i \<le> j \<and> numbered base j |\<in>| used} + (if slug |\<in>| used then 1 else 0))"
    by simp
qed

declare slugify_loop.simps [simp del]

text \<open>
  \<^verbatim>\<open>slugify(title, used)\<close> returns the slug; the set it has updated in place is
  returned with it.
\<close>

definition slugify :: "string \<Rightarrow> string fset \<Rightarrow> string \<times> string fset" where
  "slugify title used =
     (let core = slug_core title;
          slug = (if core = [] then ''page'' else core);
          base = slug;
          slug = slugify_loop base used slug 2
      in (slug, finsert slug used))"

text \<open>The slug \<^verbatim>\<open>slugify\<close> tries first: \<^verbatim>\<open>base\<close> in the source.\<close>

definition slug_base :: "string \<Rightarrow> string" where
  "slug_base title = (let core = slug_core title in if core = [] then ''page'' else core)"

section \<open>Python floats\<close>

text \<open>
  A Python \<^verbatim>\<open>float\<close> is an IEEE 754 binary64 number. The program only forms floats that
  are not negative: \<open>Fin m e\<close> is \<open>m * 2 ^ e\<close>. Every operation returns the exact result
  rounded to the nearest float, ties to even (\<open>dbl_round\<close>, on a fraction \<open>p / q\<close>):
  53 bits of precision, no exponent below -1074, and \<open>Inf\<close> from \<open>2 ^ 1024\<close> on.
\<close>

datatype pyfloat = Fin nat int | Inf | NaN

datatype error = OverflowError

text \<open>\<open>a / b\<close> rounded to the nearest integer, ties to even.\<close>

definition rne_div :: "nat \<Rightarrow> nat \<Rightarrow> nat" where
  "rne_div a b =
     (let d = a div b; r = a mod b
      in if 2 * r < b then d else if b < 2 * r then d + 1 else if even d then d else d + 1)"

text \<open>The fraction \<open>p / (q * 2 ^ k)\<close> as a pair of naturals.\<close>

definition scaled :: "nat \<Rightarrow> nat \<Rightarrow> int \<Rightarrow> nat \<times> nat" where
  "scaled p q k = (if 0 \<le> k then (p, q * 2 ^ nat k) else (p * 2 ^ nat (- k), q))"

text \<open>The binary exponent of \<open>p / q\<close>: the \<open>e\<close> with \<open>2 ^ e \<le> p / q < 2 ^ (e + 1)\<close>.\<close>

definition float_exponent :: "nat \<Rightarrow> nat \<Rightarrow> int" where
  "float_exponent p q =
     (let e0 = int (floorlog 2 p) - int (floorlog 2 q)
      in case scaled p q e0 of (a, b) \<Rightarrow> if b \<le> a then e0 else e0 - 1)"

definition dbl_round :: "nat \<Rightarrow> nat \<Rightarrow> pyfloat" where
  "dbl_round p q =
     (if p = 0 then Fin 0 0
      else
        let k = max (float_exponent p q) (- 1022) - 52;
            m = (case scaled p q k of (a, b) \<Rightarrow> rne_div a b)
        in if 971 \<le> k \<and> 2 ^ 1024 \<le> m * 2 ^ nat k then Inf else Fin m k)"

text \<open>\<^verbatim>\<open>float(n)\<close> of an \<^verbatim>\<open>int\<close> that is small enough, and the product of two floats.\<close>

definition float_of_nat :: "nat \<Rightarrow> pyfloat" where
  "float_of_nat n = dbl_round n 1"

fun float_mul :: "pyfloat \<Rightarrow> pyfloat \<Rightarrow> pyfloat" where
  "float_mul (Fin a ea) (Fin b eb) =
     (case scaled (a * b) 1 (- (ea + eb)) of (p, q) \<Rightarrow> dbl_round p q)"
| "float_mul NaN y = NaN"
| "float_mul x NaN = NaN"
| "float_mul Inf (Fin b eb) = (if b = 0 then NaN else Inf)"
| "float_mul (Fin a ea) Inf = (if a = 0 then NaN else Inf)"
| "float_mul Inf Inf = Inf"

text \<open>
  \<^verbatim>\<open>int(x)\<close> of a float cuts the fraction off; it raises \<^verbatim>\<open>OverflowError\<close> on
  infinity and \<^verbatim>\<open>ValueError\<close> on a NaN. \<open>None\<close> stands for the \<^verbatim>\<open>ValueError\<close>,
  which the one caller that can meet it catches.
\<close>

definition float_trunc :: "nat \<Rightarrow> int \<Rightarrow> nat" where
  "float_trunc m e = (if 0 \<le> e then m * 2 ^ nat e else m div 2 ^ nat (- e))"

fun int_of_float :: "pyfloat \<Rightarrow> error + nat option" where
  "int_of_float (Fin m e) = Inr (Some (float_trunc m e))"
| "int_of_float Inf = Inl OverflowError"
| "int_of_float NaN = Inr None"

text \<open>
  \<^verbatim>\<open>a / b\<close> of two \<^verbatim>\<open>int\<close>s is the exact quotient rounded once; it raises
  \<^verbatim>\<open>OverflowError\<close> when that is too large for a float.
\<close>

definition int_truediv :: "nat \<Rightarrow> nat \<Rightarrow> error + pyfloat" where
  "int_truediv a b = (case dbl_round a b of Inf \<Rightarrow> Inl OverflowError | x \<Rightarrow> Inr x)"

text \<open>
  \<^verbatim>\<open>float(s)\<close> of a decimal numeral \<open>s\<close> of the shape \<^verbatim>\<open>[0-9]*\.?[0-9]+\<close>: the
  nearest float to the number it denotes.
\<close>

definition float_of_decimal :: "string \<Rightarrow> pyfloat" where
  "float_of_decimal s =
     (let ip = takeWhile is_digit s;
          fp = filter is_digit (dropWhile is_digit s)
      in dbl_round (digits_val (ip @ fp)) (10 ^ length fp))"

text \<open>The float literals of the program: \<^verbatim>\<open>0.6\<close>, \<^verbatim>\<open>0.37\<close> and \<^verbatim>\<open>1.0\<close>.\<close>

definition float_0_6 :: pyfloat where
  "float_0_6 = dbl_round 6 10"

definition float_0_37 :: pyfloat where
  "float_0_37 = dbl_round 37 100"

definition float_1_0 :: pyfloat where
  "float_1_0 = dbl_round 1 1"

section \<open>Inline markup\<close>

text \<open>The two quote characters, which a string literal cannot hold.\<close>

definition sq :: string where
  "sq = [CHR 0x27]"

definition dq :: string where
  "dq = [CHR 0x22]"

text \<open>
  The text of group \<open>n\<close>, for a group that takes part in every match of its pattern;
  \<open>group_truthy\<close> is the test \<^verbatim>\<open>if match.group(n)\<close>.
\<close>

definition group_text :: "groups \<Rightarrow> nat \<Rightarrow> string" where
  "group_text g n = (case group g n of None \<Rightarrow> [] | Some s \<Rightarrow> s)"

definition group_truthy :: "groups \<Rightarrow> nat \<Rightarrow> bool" where
  "group_truthy g n = (case group g n of None \<Rightarrow> False | Some s \<Rightarrow> s \<noteq> [])"

text \<open>
  \<^verbatim>\<open>pattern.sub(repl, s)\<close> with a \<open>repl\<close> that may raise: the first exception ends the
  substitution.
\<close>

definition re_sub_err :: "re \<Rightarrow> (string \<Rightarrow> groups \<Rightarrow> error + string) \<Rightarrow> string \<Rightarrow> error + string" where
  "re_sub_err r f s =
     (case re_sub_st r
        (\<lambda>m g raised.
           case raised of
             Some e \<Rightarrow> ([], Some e)
           | None \<Rightarrow> (case f m g of Inl e \<Rightarrow> ([], Some e) | Inr out \<Rightarrow> (out, None)))
        s None of
        (out, None) \<Rightarrow> Inr out
      | (out, Some e) \<Rightarrow> Inl e)"

datatype mode = Html | Markdown

text \<open>
  \<^verbatim>\<open>category_slug(name)\<close>. It takes no set of used slugs.
\<close>

definition category_slug :: "string \<Rightarrow> string" where
  "category_slug name =
     (let core = slug_core name
      in ''category-'' @ (if core = [] then ''category'' else core))"

text \<open>\<^verbatim>\<open>urllib.parse.quote(s)\<close>: what is not a letter, a digit or one of \<^verbatim>\<open>_.-~/\<close> is
  written as the bytes of its UTF-8 encoding, each as \<^verbatim>\<open>%XX\<close>.\<close>

definition hex_digit :: "nat \<Rightarrow> char" where
  "hex_digit d = (if d < 10 then char_of (48 + d) else char_of (55 + d))"

definition pct_byte :: "nat \<Rightarrow> string" where
  "pct_byte n = [CHR ''%'', hex_digit (n div 16), hex_digit (n mod 16)]"

definition is_ascii_alnum :: "char \<Rightarrow> bool" where
  "is_ascii_alnum c =
     (let n = ord c in (48 \<le> n \<and> n \<le> 57) \<or> (65 \<le> n \<and> n \<le> 90) \<or> (97 \<le> n \<and> n \<le> 122))"

definition quote_char :: "char \<Rightarrow> string" where
  "quote_char c =
     (let n = ord c
      in if is_ascii_alnum c \<or> c \<in> set ''_.-~/'' then [c]
         else if n < 128 then pct_byte n
         else pct_byte (192 + n div 64) @ pct_byte (128 + n mod 64))"

definition quote :: "string \<Rightarrow> string" where
  "quote s = concat (map quote_char s)"

subsection \<open>File embeds\<close>

text \<open>\<^verbatim>\<open>FILE_LINK_ANY_RE = re.compile(r"\[\[(File:[^\]]+)]]", re.IGNORECASE)\<close>\<close>

definition FILE_LINK_ANY_RE :: re where
  "FILE_LINK_ANY_RE =
     seqs [Lit ''[['', Grp 1 (Seq (LitI ''File:'') (Plus (\<lambda>c. c \<noteq> CHR '']''))), Lit '']]'']"

text \<open>\<^verbatim>\<open>size_re = re.compile(r"^(\d+)(?:x(\d+))?px$", re.IGNORECASE)\<close>\<close>

definition size_re :: re where
  "size_re =
     seqs [Grp 1 (Plus is_digit), Opt (Seq (LitI ''x'') (Grp 2 (Plus is_digit))), LitI ''px'', Eol]"

text \<open>\<^verbatim>\<open>upright_re = re.compile(r"^upright(?::?=([0-9]*\.?[0-9]+))?$", re.IGNORECASE)\<close>\<close>

definition upright_re :: re where
  "upright_re =
     seqs [LitI ''upright'',
           Opt (seqs [Opt (Lit '':''), Lit ''='',
                      Grp 1 (seqs [Star is_digit, Opt (Lit ''.''), Plus is_digit])]),
           Eol]"

text \<open>
  \<^verbatim>\<open>int(s)\<close> of a string of digits: Python 3.11 raises \<^verbatim>\<open>ValueError\<close> (here \<open>None\<close>)
  beyond 4300 digits.
\<close>

definition int_of_digits :: "string \<Rightarrow> nat option" where
  "int_of_digits s = (if 4300 < length s then None else Some (digits_val s))"

text \<open>The local variables of \<^verbatim>\<open>file_sub\<close> that its loop over the options updates.\<close>

record fopts =
  width :: nat
  height :: nat
  alt_text :: "string option"
  link_target :: "string option"
  classes :: "string list"
  technical_indices :: "nat set"
  last_explicit_caption_idx :: "nat option"
  explicit_size :: bool

definition alignment_tokens :: "string list" where
  "alignment_tokens = [''left'', ''right'', ''center'', ''none'']"

definition frame_tokens :: "string list" where
  "frame_tokens = [''thumb'', ''thumbnail'', ''frame'', ''frameless'']"

definition known_flags :: "string list" where
  "known_flags = alignment_tokens @ frame_tokens @ [''upright'']"

definition base_default_width :: nat where
  "base_default_width = 600"

text \<open>
  \<^verbatim>\<open>h = int(w * 3 / 4)\<close>: the true division gives a float, \<^verbatim>\<open>int\<close> cuts it. \<open>Inr None\<close>
  is a \<^verbatim>\<open>ValueError\<close>.
\<close>

definition three_quarters :: "nat \<Rightarrow> error + nat option" where
  "three_quarters w = (case int_truediv (w * 3) 4 of Inl e \<Rightarrow> Inl e | Inr x \<Rightarrow> int_of_float x)"

text \<open>The body of the \<^verbatim>\<open>try\<close> of an explicit size \<^verbatim>\<open>WxHpx\<close> or \<^verbatim>\<open>Wpx\<close>.\<close>

definition size_opt :: "groups \<Rightarrow> fopts \<Rightarrow> error + fopts" where
  "size_opt g st =
     (case int_of_digits (group_text g 1) of
        None \<Rightarrow> Inr st
      | Some w \<Rightarrow>
          (case (if group_truthy g 2 then Inr (int_of_digits (group_text g 2)) else three_quarters w) of
             Inl e \<Rightarrow> Inl e
           | Inr None \<Rightarrow> Inr st
           | Inr (Some h) \<Rightarrow> Inr (st\<lparr>width := w, height := h, explicit_size := True\<rparr>)))"

text \<open>The body of the \<^verbatim>\<open>try\<close> of \<^verbatim>\<open>upright\<close> or \<^verbatim>\<open>upright=factor\<close>.\<close>

definition upright_opt :: "groups \<Rightarrow> fopts \<Rightarrow> error + fopts" where
  "upright_opt g st =
     (let scale = (if group_truthy g 1 then float_of_decimal (group_text g 1) else float_1_0)
      in if explicit_size st then Inr st
         else
           (case int_of_float (float_mul (float_mul (float_of_nat base_default_width) float_0_37) scale) of
              Inl e \<Rightarrow> Inl e
            | Inr None \<Rightarrow> Inr st
            | Inr (Some w) \<Rightarrow>
                (case three_quarters w of
                   Inl e \<Rightarrow> Inl e
                 | Inr None \<Rightarrow> Inr (st\<lparr>width := w\<rparr>)
                 | Inr (Some h) \<Rightarrow> Inr (st\<lparr>width := w, height := h\<rparr>))))"

definition add_technical :: "nat \<Rightarrow> fopts \<Rightarrow> fopts" where
  "add_technical idx st = st\<lparr>technical_indices := insert idx (technical_indices st)\<rparr>"

text \<open>One round of the loop \<^verbatim>\<open>for idx, opt in enumerate(opts)\<close>.\<close>

definition file_opt :: "fopts \<Rightarrow> nat \<times> string \<Rightarrow> error + fopts" where
  "file_opt st io =
     (let idx = fst io; opt_s = strip (snd io)
      in if opt_s = [] then Inr st
         else if startswith (lower opt_s) ''alt=''
         then Inr (add_technical idx (st\<lparr>alt_text := Some (strip (drop 4 opt_s))\<rparr>))
         else if startswith (lower opt_s) ''link=''
         then Inr (add_technical idx (st\<lparr>link_target := Some (strip (drop 5 opt_s))\<rparr>))
         else
           (case re_match size_re opt_s of
              Some g \<Rightarrow> map_sum id (add_technical idx) (size_opt g st)
            | None \<Rightarrow>
                (case re_match upright_re opt_s of
                   Some g \<Rightarrow> map_sum id (add_technical idx) (upright_opt g st)
                 | None \<Rightarrow>
                     (let low = lower opt_s
                      in if low \<in> set alignment_tokens
                         then Inr (add_technical idx (st\<lparr>classes := classes st @ [''align-'' @ low]\<rparr>))
                         else if low \<in> set frame_tokens
                         then Inr (add_technical idx (st\<lparr>classes := classes st @ [''mode-'' @ low]\<rparr>))
                         else if low \<in> set known_flags
                         then Inr (add_technical idx st)
                         else Inr (st\<lparr>last_explicit_caption_idx := Some idx\<rparr>)))))"

fun file_opts_loop :: "fopts \<Rightarrow> (nat \<times> string) list \<Rightarrow> error + fopts" where
  "file_opts_loop st [] = Inr st"
| "file_opts_loop st (io # ios) =
     (case file_opt st io of Inl e \<Rightarrow> Inl e | Inr st' \<Rightarrow> file_opts_loop st' ios)"

definition fopts_init :: fopts where
  "fopts_init = \<lparr>width = 600, height = 400, alt_text = None, link_target = None,
     classes = [''file-ref''], technical_indices = {}, last_explicit_caption_idx = None,
     explicit_size = False\<rparr>"

text \<open>The caption: the last option that is not technical, stripped; empty when there is none.\<close>

definition caption_of :: "string list \<Rightarrow> fopts \<Rightarrow> string" where
  "caption_of opts st =
     (case last_explicit_caption_idx st of
        None \<Rightarrow> []
      | Some i \<Rightarrow>
          if i \<notin> technical_indices st
          then (case drop i opts of [] \<Rightarrow> [] | x # _ \<Rightarrow> strip x)
          else [])"

definition is_http :: "string \<Rightarrow> bool" where
  "is_http s = (startswith s ''http://'' \<or> startswith s ''https://'')"

text \<open>\<^verbatim>\<open>re.search(r"href='([^']+)'", internal_anchor)\<close>, and \<^verbatim>\<open>"#"\<close> when it finds nothing.\<close>

definition href_re :: re where
  "href_re = seqs [Lit (''href='' @ sq), Grp 1 (Plus (\<lambda>c. c \<noteq> CHR 0x27)), Lit sq]"

definition href_of_anchor :: "string \<Rightarrow> string" where
  "href_of_anchor a = (case re_search href_re a of None \<Rightarrow> ''#'' | Some (pre, rest, g) \<Rightarrow> group_text g 1)"

definition is_youtube_link :: "string option \<Rightarrow> bool" where
  "is_youtube_link l =
     (case l of
        None \<Rightarrow> False
      | Some t \<Rightarrow> t \<noteq> [] \<and> (contains (lower t) ''youtube.com'' \<or> contains (lower t) ''youtu.be''))"

definition link_truthy :: "string option \<Rightarrow> string option" where
  "link_truthy l = (case l of None \<Rightarrow> None | Some t \<Rightarrow> if t = [] then None else Some t)"

text \<open>
  What \<^verbatim>\<open>file_sub\<close> returns once the options are read. \<open>lft\<close> is the converter's
  \<^verbatim>\<open>_link_for_target(target, label)\<close>: it looks a title up in the registry of page slugs,
  and is a parameter of the model.
\<close>

definition file_render ::
  "(string \<Rightarrow> string \<Rightarrow> string) \<Rightarrow> mode \<Rightarrow> string \<Rightarrow> string list \<Rightarrow> fopts \<Rightarrow> string" where
  "file_render lft md filename opts st =
     (let caption = caption_of opts st;
          w = max 40 (min (width st) 1600);
          h = max 40 (min (height st) 1200);
          label_text = take 60 filename;
          label_enc = quote label_text;
          img_url = ''https://placehold.co/'' @ str_nat w @ ''x'' @ str_nat h @ ''?text='' @ label_enc;
          alt_final = (case alt_text st of None \<Rightarrow> filename | Some a \<Rightarrow> a)
      in if is_youtube_link (link_target st) \<and> contains (lower filename) ''youtube'' \<and> caption = []
         then (case link_truthy (link_target st) of
                 None \<Rightarrow> []
               | Some l \<Rightarrow>
                   if md = Markdown then ''[YouTube]('' @ l @ '')''
                   else ''<a href='' @ sq @ escape l @ sq @ ''>YouTube</a>'')
         else if md = Markdown then
           (let md_img = ''!['' @ alt_final @ '']('' @ img_url @ '')'';
                md_img = (case link_truthy (link_target st) of
                   None \<Rightarrow> md_img
                 | Some l \<Rightarrow>
                     if \<not> is_http l
                     then (let link_target_clean = strip_chars ''[]'' l;
                               internal_anchor = lft link_target_clean ''__PLACEHOLDER__'';
                               href = replace ''.html'' ''.md'' (href_of_anchor internal_anchor)
                           in ''['' @ md_img @ '']('' @ href @ '')'')
                     else ''['' @ md_img @ '']('' @ l @ '')'')
            in if caption \<noteq> [] then md_img @ '' *'' @ caption @ ''*'' else md_img)
         else
           (let img_html = ''<img class='' @ dq @ ''placeholder-img'' @ dq @ '' src='' @ sq @ escape img_url @ sq
                  @ '' alt='' @ sq @ escape alt_final @ sq @ '' loading='' @ sq @ ''lazy'' @ sq @ ''/>'';
                img_html = (case link_truthy (link_target st) of
                   None \<Rightarrow> img_html
                 | Some l \<Rightarrow>
                     if \<not> is_http l
                     then (let link_target_clean = strip_chars ''[]'' l;
                               internal_anchor = lft link_target_clean ''__PLACEHOLDER__'';
                               href = href_of_anchor internal_anchor
                           in ''<a href='' @ sq @ escape href @ sq @ ''>'' @ img_html @ ''</a>'')
                     else ''<a href='' @ sq @ escape l @ sq @ ''>'' @ img_html @ ''</a>'');
                class_attr = join '' '' (classes st);
                fig = ''<figure class='' @ dq @ escape class_attr @ dq @ ''>'' @ img_html
                  @ ''<div class='' @ dq @ ''file-name'' @ dq @ ''>'' @ escape filename @ ''</div>'';
                fig = (if caption \<noteq> [] then fig @ ''<figcaption>'' @ escape caption @ ''</figcaption>'' else fig)
            in fig @ ''</figure>''))"

text \<open>\<^verbatim>\<open>enumerate(xs)\<close>.\<close>

definition enumerate_from0 :: "'a list \<Rightarrow> (nat \<times> 'a) list" where
  "enumerate_from0 xs = zip [0..<length xs] xs"

text \<open>The options that the loop of \<^verbatim>\<open>file_sub\<close> leaves for the span \<open>inside\<close>.\<close>

definition file_parts :: "string \<Rightarrow> string \<times> string list" where
  "file_parts inside =
     (case split ''|'' inside of
        [] \<Rightarrow> ([], [])
      | file_part # opts \<Rightarrow> (file_part, opts))"

definition file_name :: "string \<Rightarrow> string" where
  "file_name inside =
     (let fname = drop (length ''File:'') (fst (file_parts inside))
      in if fname = [] then ''File'' else fname)"

definition file_options :: "string \<Rightarrow> error + fopts" where
  "file_options inside = file_opts_loop fopts_init (enumerate_from0 (snd (file_parts inside)))"

definition file_sub :: "(string \<Rightarrow> string \<Rightarrow> string) \<Rightarrow> mode \<Rightarrow> string \<Rightarrow> groups \<Rightarrow> error + string" where
  "file_sub lft md m g =
     (let inside = group_text g 1
      in case file_options inside of
           Inl e \<Rightarrow> Inl e
         | Inr st \<Rightarrow> Inr (file_render lft md (file_name inside) (snd (file_parts inside)) st))"

subsection \<open>Links and emphasis\<close>

text \<open>\<^verbatim>\<open>LINK_RE = re.compile(r"\[\[([^\]|]+?)(?:\|([^\]]+))?]]")\<close>\<close>

definition LINK_RE :: re where
  "LINK_RE =
     seqs [Lit ''[['', Grp 1 (PlusLazy (\<lambda>c. c \<noteq> CHR '']'' \<and> c \<noteq> CHR ''|'')),
           Opt (Seq (Lit ''|'') (Grp 2 (Plus (\<lambda>c. c \<noteq> CHR '']'')))), Lit '']]'']"

text \<open>\<^verbatim>\<open>EXTERNAL_LINK_RE = re.compile(r"\[(https?://[^\s\]]+)(?:\s+([^\]]+))?]")\<close>\<close>

definition EXTERNAL_LINK_RE :: re where
  "EXTERNAL_LINK_RE =
     seqs [Lit ''['',
           Grp 1 (seqs [Lit ''http'', Opt (Lit ''s''), Lit ''://'',
                        Plus (\<lambda>c. \<not> is_space c \<and> c \<noteq> CHR '']'')]),
           Opt (Seq (Plus is_space) (Grp 2 (Plus (\<lambda>c. c \<noteq> CHR '']'')))), Lit '']'']"

text \<open>The three emphasis patterns; \<^verbatim>\<open>.\<close> is any character but a newline.\<close>

definition not_newline :: "char \<Rightarrow> bool" where
  "not_newline c = (c \<noteq> CHR 0x0A)"

definition BOLD_ITALIC_RE :: re where
  "BOLD_ITALIC_RE = seqs [Lit (concat (replicate 5 sq)), Grp 1 (StarLazy not_newline), Lit (concat (replicate 5 sq))]"

definition BOLD_RE :: re where
  "BOLD_RE = seqs [Lit (concat (replicate 3 sq)), Grp 1 (StarLazy not_newline), Lit (concat (replicate 3 sq))]"

definition ITALIC_RE :: re where
  "ITALIC_RE = seqs [Lit (concat (replicate 2 sq)), Grp 1 (StarLazy not_newline), Lit (concat (replicate 2 sq))]"

definition anchor :: "string \<Rightarrow> string \<Rightarrow> string" where
  "anchor href label = ''<a href='' @ sq @ escape href @ sq @ ''>'' @ escape label @ ''</a>''"

definition link_sub :: "(string \<Rightarrow> string \<Rightarrow> string) \<Rightarrow> string \<Rightarrow> groups \<Rightarrow> string" where
  "link_sub lft m g =
     (let target = strip (group_text g 1);
          label = (if group_truthy g 2 then strip (group_text g 2) else target)
      in if startswith (lower target) ''file:'' then label
         else if is_http target then anchor target label
         else if startswith (lower target) ''category:''
         then (let cat_name = (case split1 '':'' target of a # b # _ \<Rightarrow> b | _ \<Rightarrow> []);
                   slug = category_slug cat_name @ ''.html''
               in anchor slug label)
         else lft target label)"

definition external_sub :: "string \<Rightarrow> groups \<Rightarrow> string" where
  "external_sub m g =
     (let url = group_text g 1;
          label = (if group_truthy g 2 then strip (group_text g 2) else url)
      in anchor url label)"

text \<open>\<^verbatim>\<open>WikiConverter.inline(text)\<close>, for a converter in mode \<open>md\<close>.\<close>

definition inline :: "(string \<Rightarrow> string \<Rightarrow> string) \<Rightarrow> mode \<Rightarrow> string \<Rightarrow> error + string" where
  "inline lft md text =
     (case re_sub_err FILE_LINK_ANY_RE (file_sub lft md) text of
        Inl e \<Rightarrow> Inl e
      | Inr text \<Rightarrow>
          (let text = re_sub LINK_RE (link_sub lft) text;
               text = re_sub EXTERNAL_LINK_RE external_sub text;
               text = re_sub BOLD_ITALIC_RE
                        (\<lambda>m g. ''<strong><em>'' @ escape (group_text g 1) @ ''</em></strong>'') text;
               text = re_sub BOLD_RE (\<lambda>m g. ''<strong>'' @ escape (group_text g 1) @ ''</strong>'') text;
               text = re_sub ITALIC_RE (\<lambda>m g. ''<em>'' @ escape (group_text g 1) @ ''</em>'') text
           in Inr text))"

section \<open>Block conversion\<close>

subsection \<open>Patterns\<close>

text \<open>\<^verbatim>\<open>HEADING_RE = re.compile(r"^(=+)([^=].*?)(=+)\s*$")\<close>\<close>

definition is_eq_sign :: "char \<Rightarrow> bool" where
  "is_eq_sign c = (c = CHR ''='')"

definition HEADING_RE :: re where
  "HEADING_RE =
     seqs [Grp 1 (Plus is_eq_sign),
           Grp 2 (Seq (Cls (\<lambda>c. \<not> is_eq_sign c)) (StarLazy not_newline)),
           Grp 3 (Plus is_eq_sign), Star is_space, Eol]"

text \<open>\<^verbatim>\<open>LIST_ITEM_RE = re.compile(r"^([*#]+)\s*(.*)")\<close>\<close>

definition LIST_ITEM_RE :: re where
  "LIST_ITEM_RE =
     seqs [Grp 1 (Plus (\<lambda>c. c = CHR ''*'' \<or> c = CHR ''#'')), Star is_space, Grp 2 (Star not_newline)]"

text \<open>\<^verbatim>\<open>CATEGORY_LINK_RE = re.compile(r"\[\[Category:([^|\]]+)(?:\|[^\]]*)?]]", re.IGNORECASE)\<close>\<close>

definition CATEGORY_LINK_RE :: re where
  "CATEGORY_LINK_RE =
     seqs [LitI ''[[Category:'', Grp 1 (Plus (\<lambda>c. c \<noteq> CHR ''|'' \<and> c \<noteq> CHR '']'')),
           Opt (Seq (Lit ''|'') (Star (\<lambda>c. c \<noteq> CHR '']''))), Lit '']]'']"

text \<open>\<^verbatim>\<open>TEMPLATE_RE = re.compile(r"{{[^{}]*}}")\<close>\<close>

definition TEMPLATE_RE :: re where
  "TEMPLATE_RE = seqs [Lit ''{{'', Star (\<lambda>c. c \<noteq> CHR ''{'' \<and> c \<noteq> CHR ''}''), Lit ''}}'']"

text \<open>
  \<^verbatim>\<open>COLLAPSIBLE_OPEN_RE = re.compile(r'<div[^>]*class=["\'][^"\']*collapsible[^"\']*["\'][^>]*>', re.IGNORECASE)\<close>
\<close>

definition is_quote :: "char \<Rightarrow> bool" where
  "is_quote c = (c = CHR 0x22 \<or> c = CHR 0x27)"

definition not_gt :: "char \<Rightarrow> bool" where
  "not_gt c = (c \<noteq> CHR ''>'')"

definition COLLAPSIBLE_OPEN_RE :: re where
  "COLLAPSIBLE_OPEN_RE =
     seqs [LitI ''<div'', Star not_gt, LitI ''class='', Cls is_quote,
           Star (\<lambda>c. \<not> is_quote c), LitI ''collapsible'', Star (\<lambda>c. \<not> is_quote c),
           Cls is_quote, Star not_gt, Lit ''>'']"

text \<open>The pattern of the redirect test: \<^verbatim>\<open>r"^\s*#redirect\s*:?\[\[([^\]]+)]]"\<close>, ignoring case.\<close>

definition REDIRECT_RE :: re where
  "REDIRECT_RE =
     seqs [Star is_space, LitI ''#redirect'', Star is_space, Opt (Lit '':''), Lit ''[['',
           Grp 1 (Plus (\<lambda>c. c \<noteq> CHR '']'')), Lit '']]'']"

text \<open>The three patterns of a finished collapsible block, all ignoring case:
  \<^verbatim>\<open>r"<(strong|b|h[1-6])[^>]*>(.*?)</\1>"\<close>, \<^verbatim>\<open>r"^<div[^>]*>"\<close> and \<^verbatim>\<open>r"</div>\s*$"\<close>.\<close>

definition COLLAPSE_HEADER_RE :: re where
  "COLLAPSE_HEADER_RE =
     seqs [Lit ''<'',
           Grp 1 (Alt (LitI ''strong'') (Alt (LitI ''b'')
                    (Seq (LitI ''h'') (Cls (\<lambda>c. 49 \<le> ord c \<and> ord c \<le> 54))))),
           Star not_gt, Lit ''>'', Grp 2 (StarLazy not_newline), Lit ''</'', BrefI 1, Lit ''>'']"

definition DIV_OPEN_RE :: re where
  "DIV_OPEN_RE = seqs [LitI ''<div'', Star not_gt, Lit ''>'']"

definition DIV_CLOSE_RE :: re where
  "DIV_CLOSE_RE = seqs [LitI ''</div>'', Star is_space, Eol]"

text \<open>The test \<^verbatim>\<open>re.match(r"^[^|]+\|", part)\<close> on a table cell.\<close>

definition CELL_ATTR_RE :: re where
  "CELL_ATTR_RE = Seq (Plus (\<lambda>c. c \<noteq> CHR ''|'')) (Lit ''|'')"

subsection \<open>Categories\<close>

text \<open>
  The closure variables \<^verbatim>\<open>categories\<close> and \<^verbatim>\<open>cat_set\<close> of \<^verbatim>\<open>convert\<close>, which
  \<^verbatim>\<open>strip_categories\<close> updates: it removes every category link of a line and records the
  names it has not seen.
\<close>

type_synonym cats = "string list \<times> string set"

definition record_category :: "string \<Rightarrow> groups \<Rightarrow> cats \<Rightarrow> string \<times> cats" where
  "record_category m g cs =
     (let cat = strip (group_text g 1)
      in if cat \<notin> snd cs then ([], (fst cs @ [cat], insert cat (snd cs))) else ([], cs))"

definition strip_categories :: "string \<Rightarrow> cats \<Rightarrow> string \<times> cats" where
  "strip_categories line cs = re_sub_st CATEGORY_LINK_RE record_category line cs"

subsection \<open>Tables\<close>

type_synonym cell = "string \<times> bool"

text \<open>The variables of the loop over the lines of a table.\<close>

record tparse =
  header_text :: string
  rows :: "cell list list"
  current_row :: "cell list"
  pending_text_lines :: "string list"
  table_cats :: cats

definition flush_pending_into_cell :: "tparse \<Rightarrow> tparse" where
  "flush_pending_into_cell st =
     (if pending_text_lines st \<noteq> []
      then (let joined = strip (join '' '' (pending_text_lines st));
                st = (if joined \<noteq> [] then st\<lparr>current_row := current_row st @ [(joined, False)]\<rparr> else st)
            in st\<lparr>pending_text_lines := []\<rparr>)
      else st)"

definition cell_part :: "bool \<Rightarrow> string \<Rightarrow> tparse \<Rightarrow> tparse" where
  "cell_part is_header part0 st =
     (let part = strip part0;
          part = (if contains part ''|'' \<and> re_match CELL_ATTR_RE part \<noteq> None
                  then (case split1 ''|'' part of a # b # _ \<Rightarrow> strip b | _ \<Rightarrow> part)
                  else part);
          res = strip_categories part (table_cats st)
      in st\<lparr>current_row := current_row st @ [(fst res, is_header)], table_cats := snd res\<rparr>)"

definition table_line :: "string \<Rightarrow> tparse \<Rightarrow> tparse" where
  "table_line tline st =
     (let stripped = rstrip tline; core = strip stripped
      in if core = [] then st
         else if startswith core ''|+'' then st\<lparr>header_text := strip (drop 2 core)\<rparr>
         else if startswith core ''|-''
         then (let st = flush_pending_into_cell st
               in if current_row st \<noteq> []
                  then st\<lparr>rows := rows st @ [current_row st], current_row := []\<rparr>
                  else st)
         else if startswith core ''!'' \<or> startswith core ''|''
         then (let st = flush_pending_into_cell st;
                   is_header = startswith core ''!'';
                   cell_line = lstrip (drop 1 core);
                   delimiter = (if is_header \<and> contains cell_line ''!!'' then Some ''!!''
                                else if contains cell_line ''||'' then Some ''||'' else None);
                   parts = (case delimiter of None \<Rightarrow> [cell_line] | Some d \<Rightarrow> split d cell_line)
               in fold (cell_part is_header) parts st)
         else st\<lparr>pending_text_lines := pending_text_lines st @ [core]\<rparr>)"

text \<open>
  The rows of a table whose lines, from the opening to the closing marker, are \<open>tls\<close>: the
  loop runs over \<^verbatim>\<open>table_lines[1:-1]\<close>, then the last row is flushed.
\<close>

definition parse_table :: "string list \<Rightarrow> cats \<Rightarrow> tparse" where
  "parse_table tls cs =
     (let st = fold table_line (butlast (tl tls))
                 \<lparr>header_text = [], rows = [], current_row = [], pending_text_lines = [],
                  table_cats = cs\<rparr>;
          st = flush_pending_into_cell st
      in if current_row st \<noteq> []
         then st\<lparr>rows := rows st @ [current_row st], current_row := []\<rparr>
         else st)"

text \<open>\<^verbatim>\<open>max(xs)\<close> of a list that is not empty.\<close>

fun py_max :: "nat list \<Rightarrow> nat" where
  "py_max [] = 0"
| "py_max [x] = x"
| "py_max (x # y # ys) = max x (py_max (y # ys))"

definition max_cols :: "cell list list \<Rightarrow> nat" where
  "max_cols rs =
     (let col_counts = map length (filter (\<lambda>r. r \<noteq> []) rs)
      in if col_counts \<noteq> [] then py_max col_counts else 0)"

text \<open>
  \<^verbatim>\<open>int(0.6 * len(rows))\<close>. A list has fewer than \<open>2 ^ 63\<close> elements, so the product is
  finite and \<^verbatim>\<open>int\<close> does not raise.
\<close>

definition int_0_6_times :: "nat \<Rightarrow> nat" where
  "int_0_6_times n =
     (case float_mul float_0_6 (float_of_nat n) of Fin m e \<Rightarrow> float_trunc m e | _ \<Rightarrow> 0)"

definition key_value_style :: "cell list list \<Rightarrow> bool" where
  "key_value_style rs =
     (max_cols rs = 2 \<and>
      max 1 (int_0_6_times (length rs)) \<le> length (filter (\<lambda>r. length r = 2) rs))"

text \<open>Running a function that may raise over a list, from the left.\<close>

fun map_err :: "('a \<Rightarrow> error + 'b) \<Rightarrow> 'a list \<Rightarrow> error + 'b list" where
  "map_err f [] = Inr []"
| "map_err f (x # xs) =
     (case f x of
        Inl e \<Rightarrow> Inl e
      | Inr y \<Rightarrow> (case map_err f xs of Inl e \<Rightarrow> Inl e | Inr ys \<Rightarrow> Inr (y # ys)))"

text \<open>
  The separator \<^verbatim>\<open>" - "\<close> of the cells of an odd row: the dash is the one code point
  beyond 255 that the program writes. It stands here as the three bytes of its UTF-8
  encoding; nothing reads it.
\<close>

definition dash_sep :: string where
  "dash_sep = '' '' @ [CHR 0xE2, CHR 0x80, CHR 0x94] @ '' ''"

definition sanitize_md :: "string \<Rightarrow> string" where
  "sanitize_md cell = strip (replace [CHR 0x0A] '' '' (replace ''|'' [CHR 0x5C, CHR ''|''] cell))"

text \<open>The lines a finished table adds to the output, in HTML mode. \<open>inl\<close> is \<^verbatim>\<open>self.inline\<close>.\<close>

definition kv_row_html :: "(string \<Rightarrow> error + string) \<Rightarrow> cell list \<Rightarrow> error + string" where
  "kv_row_html inl r =
     (case map_err (\<lambda>c. inl (fst c)) r of
        Inl e \<Rightarrow> Inl e
      | Inr cells \<Rightarrow>
          if length r = 2
          then Inr (''<dt>'' @ cells ! 0 @ ''</dt><dd>'' @ cells ! 1 @ ''</dd>'')
          else Inr (''<dd>'' @ join dash_sep cells @ ''</dd>''))"

definition grid_row_html :: "(string \<Rightarrow> error + string) \<Rightarrow> cell list \<Rightarrow> error + string" where
  "grid_row_html inl r =
     (case map_err (\<lambda>c. case inl (fst c) of
                        Inl e \<Rightarrow> Inl e
                      | Inr t \<Rightarrow> (let tag = (if snd c then ''th'' else ''td'')
                                  in Inr (''<'' @ tag @ ''>'' @ t @ ''</'' @ tag @ ''>''))) r of
        Inl e \<Rightarrow> Inl e
      | Inr cells \<Rightarrow> Inr (''<tr>'' @ concat cells @ ''</tr>''))"

definition table_html :: "(string \<Rightarrow> error + string) \<Rightarrow> string \<Rightarrow> cell list list \<Rightarrow> error + string list" where
  "table_html inl header rs =
     (case (if header \<noteq> [] then map_sum id (\<lambda>h. ''<header>'' @ h @ ''</header>'') (inl header) else Inr []) of
        Inl e \<Rightarrow> Inl e
      | Inr header_html \<Rightarrow>
          if key_value_style rs
          then (case map_err (kv_row_html inl) rs of
                  Inl e \<Rightarrow> Inl e
                | Inr body \<Rightarrow>
                    Inr [''<aside class='' @ sq @ ''collapsible infobox'' @ sq @ ''>'' @ header_html @ ''<dl>''
                         @ concat body @ ''</dl></aside>''])
          else (case map_err (grid_row_html inl) rs of
                  Inl e \<Rightarrow> Inl e
                | Inr body \<Rightarrow>
                    Inr [''<table class='' @ sq @ ''wikitable'' @ sq @ ''>'' @ header_html
                         @ concat body @ ''</table>'']))"

text \<open>The same in Markdown mode, where every table row is a line of its own.\<close>

definition kv_row_md :: "(string \<Rightarrow> error + string) \<Rightarrow> cell list \<Rightarrow> error + string" where
  "kv_row_md inl r =
     (case map_err (\<lambda>c. inl (fst c)) r of
        Inl e \<Rightarrow> Inl e
      | Inr cells \<Rightarrow>
          if length r = 2
          then Inr (''| '' @ sanitize_md (cells ! 0) @ '' | '' @ sanitize_md (cells ! 1) @ '' |'')
          else Inr (''|  | '' @ sanitize_md (join dash_sep cells) @ '' |''))"

definition grid_row_md :: "(string \<Rightarrow> error + string) \<Rightarrow> nat \<Rightarrow> cell list \<Rightarrow> error + string" where
  "grid_row_md inl n r =
     (case map_err (\<lambda>idx. if idx < length r then map_sum id sanitize_md (inl (fst (r ! idx))) else Inr [])
             [0..<n] of
        Inl e \<Rightarrow> Inl e
      | Inr cells \<Rightarrow> Inr (''| '' @ join '' | '' cells @ '' |''))"

definition table_md :: "(string \<Rightarrow> error + string) \<Rightarrow> string \<Rightarrow> cell list list \<Rightarrow> error + string list" where
  "table_md inl header rs =
     (case (if header \<noteq> [] then inl header else Inr []) of
        Inl e \<Rightarrow> Inl e
      | Inr header_html \<Rightarrow>
          if key_value_style rs
          then (case (if header \<noteq> [] then map_sum id (\<lambda>h. [''**'' @ sanitize_md h @ ''**'']) (inl header)
                      else Inr []) of
                  Inl e \<Rightarrow> Inl e
                | Inr title \<Rightarrow>
                    (case map_err (kv_row_md inl) rs of
                       Inl e \<Rightarrow> Inl e
                     | Inr body \<Rightarrow> Inr (title @ [''| Key | Value |'', ''| --- | ----- |''] @ body)))
          else (case rs of
                  [] \<Rightarrow> Inr []
                | header_row # rest \<Rightarrow>
                    (case grid_row_md inl (max_cols rs) header_row of
                       Inl e \<Rightarrow> Inl e
                     | Inr headers \<Rightarrow>
                         (case map_err (grid_row_md inl (max_cols rs)) rest of
                            Inl e \<Rightarrow> Inl e
                          | Inr body \<Rightarrow>
                              Inr ([headers, ''| '' @ join '' | '' (replicate (max_cols rs) ''---'') @ '' |'']
                                   @ body)))))"

subsection \<open>The line loop\<close>

text \<open>The variables of \<^verbatim>\<open>convert\<close> that its loop over the lines updates.\<close>

record cstate =
  html_lines :: "string list"
  list_stack :: "string list"
  categories :: "string list"
  cat_set :: "string set"
  in_collapse :: bool
  collapse_lines :: "string list"
  in_table :: bool
  table_lines :: "string list"

definition list_tag :: "string \<Rightarrow> string" where
  "list_tag t = (if t = ''*'' then ''ul'' else ''ol'')"

text \<open>\<^verbatim>\<open>close_lists(to_level)\<close>: pops the stack down to \<open>to_level\<close>, writing a closing tag each time.\<close>

function close_lists :: "nat \<Rightarrow> cstate \<Rightarrow> cstate" where
  "close_lists to_level st =
     (if to_level < length (list_stack st)
      then close_lists to_level
             (st\<lparr>list_stack := butlast (list_stack st),
                 html_lines := html_lines st @ [''</'' @ list_tag (last (list_stack st)) @ ''>'']\<rparr>)
      else st)"
  by pat_completeness auto
termination
  by (relation "measure (\<lambda>(to_level, st). length (list_stack st))") auto

declare close_lists.simps [simp del]

definition emit :: "string list \<Rightarrow> cstate \<Rightarrow> cstate" where
  "emit ls st = st\<lparr>html_lines := html_lines st @ ls\<rparr>"

text \<open>\<^verbatim>\<open>heading_id(text)\<close>.\<close>

definition heading_id :: "string \<Rightarrow> string" where
  "heading_id text = (let base = slug_core text in if base = [] then ''section'' else base)"

text \<open>A line that closes a table: the rows are read, the lists closed, the table written.\<close>

definition finish_table :: "(string \<Rightarrow> error + string) \<Rightarrow> mode \<Rightarrow> cstate \<Rightarrow> error + cstate" where
  "finish_table inl md st =
     (let t = parse_table (table_lines st) (categories st, cat_set st);
          st = st\<lparr>categories := fst (table_cats t), cat_set := snd (table_cats t)\<rparr>;
          st = close_lists 0 st
      in case (if md = Markdown then table_md inl (header_text t) (rows t)
               else table_html inl (header_text t) (rows t)) of
           Inl e \<Rightarrow> Inl e
         | Inr ls \<Rightarrow> Inr ((emit ls st)\<lparr>in_table := False\<rparr>))"

text \<open>A line that closes a collapsible block.\<close>

definition strip_div_open :: "string \<Rightarrow> string" where
  "strip_div_open block = (case matches DIV_OPEN_RE block [] of [] \<Rightarrow> block | (rest, g) # _ \<Rightarrow> rest)"

definition finish_collapse :: "(string \<Rightarrow> error + string) \<Rightarrow> cstate \<Rightarrow> error + cstate" where
  "finish_collapse inl st =
     (let block = join [CHR 0x0A] (collapse_lines st);
          header_html = (case re_search COLLAPSE_HEADER_RE block of
                           None \<Rightarrow> []
                         | Some (pre, rest, g) \<Rightarrow> ''<header>'' @ group_text g 2 @ ''</header>'');
          inner = strip_div_open block;
          inner = re_sub DIV_CLOSE_RE (\<lambda>m g. []) inner
      in case inl inner of
           Inl e \<Rightarrow> Inl e
         | Inr converted \<Rightarrow>
             Inr ((emit [''<aside class='' @ sq @ ''collapsible'' @ sq @ ''>'' @ header_html @ converted
                         @ ''</aside>''] st)\<lparr>in_collapse := False\<rparr>))"

text \<open>A list item: the marker run \<open>markers\<close> and the text \<open>body\<close>.\<close>

definition open_list :: "string \<Rightarrow> cstate \<Rightarrow> cstate" where
  "open_list marker_type st =
     emit [''<'' @ list_tag marker_type @ ''>''] (st\<lparr>list_stack := list_stack st @ [marker_type]\<rparr>)"

definition list_item :: "(string \<Rightarrow> error + string) \<Rightarrow> string \<Rightarrow> string \<Rightarrow> cstate \<Rightarrow> error + cstate" where
  "list_item inl markers body st =
     (let level = length markers;
          marker_type = [last markers];
          current_depth = length (list_stack st);
          st = ((open_list marker_type) ^^ (level - current_depth)) st;
          st = (if level < current_depth then close_lists level st else st);
          st = (if level \<noteq> 0 \<and> list_stack st \<noteq> [] \<and> last (list_stack st) \<noteq> marker_type
                then open_list marker_type (close_lists (level - 1) st)
                else st)
      in case inl body of
           Inl e \<Rightarrow> Inl e
         | Inr body_html \<Rightarrow> Inr (emit [''<li>'' @ body_html @ ''</li>''] st))"

text \<open>The heading block of a line that \<^verbatim>\<open>HEADING_RE\<close> matches with the groups \<open>g\<close>.\<close>

definition heading_block :: "groups \<Rightarrow> string" where
  "heading_block g =
     (let level = min (length (group_text g 1)) 6;
          content = strip (group_text g 2);
          hid = heading_id content
      in ''<h'' @ str_nat level @ '' id='' @ sq @ escape hid @ sq @ ''>'' @ escape content
         @ ''</h'' @ str_nat level @ ''>'')"

text \<open>A line in normal mode: outside a table and outside a collapsible block.\<close>

definition normal_line :: "(string \<Rightarrow> error + string) \<Rightarrow> string \<Rightarrow> cstate \<Rightarrow> error + cstate" where
  "normal_line inl line0 st =
     (let res = strip_categories line0 (categories st, cat_set st);
          line = fst res;
          st = st\<lparr>categories := fst (snd res), cat_set := snd (snd res)\<rparr>
      in if strip line = [] then Inr (emit [[]] (close_lists 0 st))
         else
           (case re_match HEADING_RE line of
              Some g \<Rightarrow> Inr (emit [heading_block g] (close_lists 0 st))
            | None \<Rightarrow>
                (case re_match LIST_ITEM_RE line of
                   Some g \<Rightarrow> list_item inl (group_text g 1) (group_text g 2) st
                 | None \<Rightarrow>
                     (case inl line of
                        Inl e \<Rightarrow> Inl e
                      | Inr p \<Rightarrow> Inr (emit [''<p>'' @ p @ ''</p>''] (close_lists 0 st))))))"

text \<open>One round of the loop \<^verbatim>\<open>for raw in lines\<close>.\<close>

definition convert_line :: "(string \<Rightarrow> error + string) \<Rightarrow> mode \<Rightarrow> string \<Rightarrow> cstate \<Rightarrow> error + cstate" where
  "convert_line inl md raw st =
     (let line = rstrip_with (\<lambda>c. c = CHR 0x0A) raw
      in if \<not> in_collapse st \<and> \<not> in_table st \<and> startswith (lstrip line) ''{|''
         then Inr (st\<lparr>in_table := True, table_lines := [line]\<rparr>)
         else if in_table st
         then (let st = st\<lparr>table_lines := table_lines st @ [line]\<rparr>
               in if startswith (strip line) ''|}'' then finish_table inl md st else Inr st)
         else if \<not> in_collapse st \<and> re_search COLLAPSIBLE_OPEN_RE line \<noteq> None
         then Inr (st\<lparr>in_collapse := True, collapse_lines := [line]\<rparr>)
         else if in_collapse st
         then (let st = st\<lparr>collapse_lines := collapse_lines st @ [line]\<rparr>
               in if contains (lower line) ''</div>'' then finish_collapse inl st else Inr st)
         else normal_line inl line st)"

fun convert_lines :: "(string \<Rightarrow> error + string) \<Rightarrow> mode \<Rightarrow> string list \<Rightarrow> cstate \<Rightarrow> error + cstate" where
  "convert_lines inl md [] st = Inr st"
| "convert_lines inl md (raw # raws) st =
     (case convert_line inl md raw st of
        Inl e \<Rightarrow> Inl e
      | Inr st' \<Rightarrow> convert_lines inl md raws st')"

definition cstate_init :: cstate where
  "cstate_init = \<lparr>html_lines = [], list_stack = [], categories = [], cat_set = {},
     in_collapse = False, collapse_lines = [], in_table = False, table_lines = []\<rparr>"

text \<open>The ten rounds at most of template removal.\<close>

fun strip_templates :: "nat \<Rightarrow> string \<Rightarrow> string" where
  "strip_templates 0 text = text"
| "strip_templates (Suc n) text =
     (let new_text = re_sub TEMPLATE_RE (\<lambda>m g. []) text
      in if new_text = text then text else strip_templates n new_text)"

definition redirect_box :: "string \<Rightarrow> string" where
  "redirect_box target_html =
     ''<div class='' @ sq @ ''redirectbox'' @ sq @ ''>Redirect to '' @ target_html @ ''</div>''"

text \<open>
  \<^verbatim>\<open>WikiConverter.convert(title, text)\<close> for a converter in mode \<open>md\<close> whose
  \<^verbatim>\<open>_link_for_target\<close> is \<open>lft\<close>: the page body and the categories, or the exception a
  file embed has raised.
\<close>

definition convert ::
  "(string \<Rightarrow> string \<Rightarrow> string) \<Rightarrow> mode \<Rightarrow> string \<Rightarrow> string \<Rightarrow> error + string \<times> string list" where
  "convert lft md title text0 =
     (let text = replace [CHR 0x0D] [] text0
      in case re_match REDIRECT_RE text of
           Some g \<Rightarrow>
             (let target_raw = strip (group_text g 1)
              in Inr (redirect_box (lft target_raw target_raw), []))
         | None \<Rightarrow>
             (let text = strip_templates 10 text;
                  lines = split [CHR 0x0A] text
              in case convert_lines (inline lft md) md lines cstate_init of
                   Inl e \<Rightarrow> Inl e
                 | Inr st \<Rightarrow>
                     (let st = close_lists 0 st
                      in Inr (join [CHR 0x0A] (html_lines st), categories st))))"

subsection \<open>The classification as the specification words it\<close>

text \<open>
  "The maximum number of cells over the non-empty rows equals 2": some row has two cells
  and no row has more.
\<close>

definition max_cells_is_two :: "cell list list \<Rightarrow> bool" where
  "max_cells_is_two rs = (list_ex (\<lambda>r. length r = 2) rs \<and> list_all (\<lambda>r. length r \<le> 2) rs)"

definition two_cell_rows :: "cell list list \<Rightarrow> nat" where
  "two_cell_rows rs = length (filter (\<lambda>r. length r = 2) rs)"

text \<open>The threshold "60% of the rows, rounded up, at least 1", and the same rounded down.\<close>

definition threshold_up :: "nat \<Rightarrow> nat" where
  "threshold_up n = max 1 ((3 * n + 4) div 5)"

definition threshold_down :: "nat \<Rightarrow> nat" where
  "threshold_down n = max 1 (3 * n div 5)"

definition key_value_rounded_up :: "cell list list \<Rightarrow> bool" where
  "key_value_rounded_up rs = (max_cells_is_two rs \<and> threshold_up (length rs) \<le> two_cell_rows rs)"

definition key_value_rounded_down :: "cell list list \<Rightarrow> bool" where
  "key_value_rounded_down rs = (max_cells_is_two rs \<and> threshold_down (length rs) \<le> two_cell_rows rs)"

text \<open>The rows of the table that the wikitext lines \<open>tls\<close> hold, on a page with no category yet.\<close>

definition table_rows :: "string list \<Rightarrow> cell list list" where
  "table_rows tls = rows (parse_table tls ([], {}))"

subsection \<open>Reading the output\<close>

text \<open>
  The lines of the output between the first line \<open>x\<close> and the next line \<open>y\<close>, and how
  many of them close a list.
\<close>

definition is_list_close :: "string \<Rightarrow> bool" where
  "is_list_close l = (l = ''</ul>'' \<or> l = ''</ol>'')"

definition lines_between :: "string \<Rightarrow> string \<Rightarrow> string list \<Rightarrow> string list" where
  "lines_between x y ls = takeWhile (\<lambda>l. l \<noteq> y) (drop 1 (dropWhile (\<lambda>l. l \<noteq> x) ls))"

definition closes_between :: "string \<Rightarrow> string \<Rightarrow> string list \<Rightarrow> nat" where
  "closes_between x y ls = length (filter is_list_close (lines_between x y ls))"

text \<open>The state of the converter after the lines \<open>ls\<close> of a page.\<close>

definition after_lines ::
  "(string \<Rightarrow> string \<Rightarrow> string) \<Rightarrow> mode \<Rightarrow> string list \<Rightarrow> error + cstate" where
  "after_lines lft md ls = convert_lines (inline lft md) md ls cstate_init"

text \<open>The depth of the list nesting and the output lines of a state, when no exception was raised.\<close>

definition depth_of :: "error + cstate \<Rightarrow> nat option" where
  "depth_of r = (case r of Inl e \<Rightarrow> None | Inr st \<Rightarrow> Some (length (list_stack st)))"

definition output_of :: "error + cstate \<Rightarrow> string list option" where
  "output_of r = (case r of Inl e \<Rightarrow> None | Inr st \<Rightarrow> Some (html_lines st))"

text \<open>The lines of the page body that \<open>convert\<close> returns.\<close>

definition page_lines :: "error + string \<times> string list \<Rightarrow> string list option" where
  "page_lines r = (case r of Inl e \<Rightarrow> None | Inr (html, cats) \<Rightarrow> Some (split [CHR 0x0A] html))"

text \<open>The page of the three list lines \<^verbatim>\<open>* a\<close>, \<^verbatim>\<open>** b\<close>, \<^verbatim>\<open>* c\<close>.\<close>

definition abc_list :: string where
  "abc_list = ''* a'' @ [CHR 0x0A] @ ''** b'' @ [CHR 0x0A] @ ''* c''"

subsection \<open>Reading a rendered file embed\<close>

text \<open>
  An option of a file embed that is a candidate caption: it is not empty and falls through
  every technical test of the loop.
\<close>

definition is_caption_token :: "string \<Rightarrow> bool" where
  "is_caption_token c =
     (let opt_s = strip c
      in opt_s \<noteq> [] \<and> \<not> startswith (lower opt_s) ''alt='' \<and> \<not> startswith (lower opt_s) ''link=''
         \<and> re_match size_re opt_s = None \<and> re_match upright_re opt_s = None
         \<and> lower opt_s \<notin> set known_flags)"

text \<open>A figure element that holds an image; the plain link that stands in for a YouTube icon.\<close>

definition is_figure :: "string \<Rightarrow> bool" where
  "is_figure s = (startswith s ''<figure '' \<and> contains s ''<img '' \<and> contains s ''</figure>'')"

definition youtube_anchor :: "string \<Rightarrow> string" where
  "youtube_anchor l = ''<a href='' @ sq @ escape l @ sq @ ''>YouTube</a>''"

text \<open>The image element and the file-name line of a rendered figure.\<close>

definition img_html_of :: "fopts \<Rightarrow> string \<Rightarrow> string" where
  "img_html_of st filename =
     ''<img class='' @ dq @ ''placeholder-img'' @ dq @ '' src='' @ sq
     @ escape (''https://placehold.co/'' @ str_nat (max 40 (min (width st) 1600)) @ ''x''
               @ str_nat (max 40 (min (height st) 1200)) @ ''?text='' @ quote (take 60 filename))
     @ sq @ '' alt='' @ sq @ escape (case alt_text st of None \<Rightarrow> filename | Some a \<Rightarrow> a) @ sq
     @ '' loading='' @ sq @ ''lazy'' @ sq @ ''/>''"

definition file_name_div :: "string \<Rightarrow> string" where
  "file_name_div filename = ''<div class='' @ dq @ ''file-name'' @ dq @ ''>'' @ escape filename @ ''</div>''"

definition figcaption :: "string \<Rightarrow> string" where
  "figcaption caption = (if caption \<noteq> [] then ''<figcaption>'' @ escape caption @ ''</figcaption>'' else [])"

text \<open>The two file embeds of the YouTube example, as they stand in a line of wikitext.\<close>

definition video_span :: string where
  "video_span = ''[[File:Video.ogg|thumb|link=https://youtu.be/xyz]]''"

definition youtube_span :: string where
  "youtube_span = ''[[File:YouTube.ogg|thumb|link=https://youtu.be/xyz]]''"

definition video_figure :: string where
  "video_figure =
     ''<figure class='' @ dq @ ''file-ref mode-thumb'' @ dq @ ''><a href='' @ sq @ ''https://youtu.be/xyz'' @ sq
     @ ''><img class='' @ dq @ ''placeholder-img'' @ dq @ '' src='' @ sq
     @ ''https://placehold.co/600x400?text=Video.ogg'' @ sq @ '' alt='' @ sq @ ''Video.ogg'' @ sq
     @ '' loading='' @ sq @ ''lazy'' @ sq @ ''/></a><div class='' @ dq @ ''file-name'' @ dq
     @ ''>Video.ogg</div></figure>''"

subsection \<open>Reading a float\<close>

text \<open>The number a float stands for, and the factor of an \<^verbatim>\<open>upright\<close> option as a float.\<close>

definition float_val :: "pyfloat \<Rightarrow> real" where
  "float_val x = (case x of Fin m e \<Rightarrow> real m * 2 powi e | _ \<Rightarrow> 0)"

definition upright_scale :: "groups \<Rightarrow> pyfloat" where
  "upright_scale g = (if group_truthy g 1 then float_of_decimal (group_text g 1) else float_1_0)"

text \<open>The width and the height that the options of the embed \<open>inside\<close> leave, before the clamp.\<close>

definition embed_size :: "string \<Rightarrow> (nat \<times> nat) option" where
  "embed_size inside = (case file_options inside of Inl e \<Rightarrow> None | Inr st \<Rightarrow> Some (width st, height st))"

subsection \<open>Example pages\<close>

text \<open>A redirect page with a category link after the directive.\<close>

definition redirect_page :: string where
  "redirect_page = ''#REDIRECT[[Target Page]]'' @ [CHR 0x0A] @ ''Text. [[Category:Foo]]''"

text \<open>A heading line with a link and italics in it, and the block it gives.\<close>

definition heading_line :: string where
  "heading_line = ''== See [[Main Page]] in '' @ sq @ sq @ ''italics'' @ sq @ sq @ '' ==''"

definition heading_html :: string where
  "heading_html = ''<h2 id='' @ sq @ ''see-main-page-in-italics'' @ sq
     @ ''>See [[Main Page]] in &#x27;&#x27;italics&#x27;&#x27;</h2>''"

subsection \<open>Reading the categories\<close>

text \<open>
  The line \<open>raw\<close>, read in the state \<open>st\<close>, goes to a collapsible block: it is added to the
  open block, or it opens one.
\<close>

definition in_collapsible_branch :: "string \<Rightarrow> cstate \<Rightarrow> bool" where
  "in_collapsible_branch raw st =
     (let line = rstrip_with (\<lambda>c. c = CHR 0x0A) raw
      in \<not> in_table st \<and>
         (in_collapse st \<or>
          (\<not> startswith (lstrip line) ''{|'' \<and> re_search COLLAPSIBLE_OPEN_RE line \<noteq> None)))"

text \<open>Every line of \<open>ls\<close>, read in turn from the state \<open>st\<close>, goes to a collapsible block.\<close>

fun collapsible_run :: "(string \<Rightarrow> error + string) \<Rightarrow> mode \<Rightarrow> string list \<Rightarrow> cstate \<Rightarrow> bool" where
  "collapsible_run inl md [] st = True"
| "collapsible_run inl md (raw # raws) st =
     (in_collapsible_branch raw st \<and>
      (case convert_line inl md raw st of
         Inl e \<Rightarrow> True
       | Inr st' \<Rightarrow> collapsible_run inl md raws st'))"

definition categories_of :: "error + cstate \<Rightarrow> string list option" where
  "categories_of r = (case r of Inl e \<Rightarrow> None | Inr st \<Rightarrow> Some (categories st))"

text \<open>The lines of a collapsible block that holds a category link.\<close>

definition hidden_lines :: "string list" where
  "hidden_lines = [''<div class='' @ dq @ ''mw-collapsible'' @ dq @ ''>'', ''[[Category:Hidden]]'', ''</div>'']"

subsection \<open>Slugs of the pages and of the categories\<close>

text \<open>
  \<^verbatim>\<open>build_pages\<close> gives the pages their slugs in turn, all from one set \<^verbatim>\<open>used_slugs\<close>:
  the slugs of the titles \<open>ts\<close> and the set after them.
\<close>

fun assign_slugs :: "string list \<Rightarrow> string fset \<Rightarrow> string list \<times> string fset" where
  "assign_slugs [] used_slugs = ([], used_slugs)"
| "assign_slugs (t # ts) used_slugs =
     (let (slug, used1) = slugify t used_slugs;
          (slugs, used2) = assign_slugs ts used1
      in (slug # slugs, used2))"

text \<open>
  The file of a category: \<^verbatim>\<open>final_slug\<close>, the category slug moved away from the slugs of
  the pages, which is not added to \<^verbatim>\<open>used_slugs\<close>.
\<close>

definition category_final_slug :: "string \<Rightarrow> string fset \<Rightarrow> string" where
  "category_final_slug cat used_slugs =
     (let cslug = category_slug cat in slugify_loop cslug used_slugs cslug 2)"

definition category_file_name :: "string \<Rightarrow> string fset \<Rightarrow> string" where
  "category_file_name cat used_slugs = category_final_slug cat used_slugs @ ''.html''"

text \<open>
  The link to a category, in the category list of a page and in the index:
  \<^verbatim>\<open>category_slug(c) + ".html"\<close>, as in \<open>link_sub\<close>. The file of a page is its slug with
  \<^verbatim>\<open>.html\<close>.
\<close>

definition category_href :: "string \<Rightarrow> string" where
  "category_href cat = category_slug cat @ ''.html''"

definition page_file_name :: "string \<Rightarrow> string" where
  "page_file_name slug = slug @ ''.html''"

section \<open>Properties\<close>

subsection \<open>Slugs\<close>

lemma slugify_loop_fresh: "slugify_loop base used slug i |\<notin>| used"
  by (induction base used slug i rule: slugify_loop.induct)
     (subst slugify_loop.simps, simp)

lemma slugify_loop_unused: "slug |\<notin>| used \<Longrightarrow> slugify_loop base used slug i = slug"
  by (subst slugify_loop.simps) simp

lemma numbered_neq_base: "numbered base i \<noteq> base"
  by (simp add: numbered_def)

lemma slugify_empty: "slugify T {||} = (slug_base T, {|slug_base T|})"
  by (simp add: slugify_def slug_base_def Let_def slugify_loop_unused)

lemma slugify_second:
  "slugify T {|slug_base T|} = (numbered (slug_base T) 2, {|numbered (slug_base T) 2, slug_base T|})"
proof -
  have "slugify_loop (slug_base T) {|slug_base T|} (slug_base T) 2
      = slugify_loop (slug_base T) {|slug_base T|} (numbered (slug_base T) 2) 3"
    by (subst slugify_loop.simps) simp
  also have "\<dots> = numbered (slug_base T) 2"
    by (rule slugify_loop_unused) (simp add: numbered_neq_base)
  finally show ?thesis
    by (simp add: slugify_def slug_base_def Let_def)
qed

lemma str_nat_2: "str_nat 2 = ''2''"
  by code_simp

lemma slugify_fresh: "fst (slugify T u) |\<notin>| u"
  by (simp add: slugify_def Let_def slugify_loop_fresh)

lemma slugify_snd: "snd (slugify T u) = finsert (fst (slugify T u)) u"
  by (simp add: slugify_def Let_def)

text \<open>
  Claim C7. \<open>slugify\<close> is a function of the title and the set of used slugs. Called on a
  fresh, empty set it returns the base slug of the title, every time. Called twice with
  the same title on one shared set, which the first call has updated, it returns the base
  slug and then the base slug followed by \<^verbatim>\<open>-2\<close>; and whatever the shared set held
  before, the two slugs differ.
\<close>

theorem slugify_twice:
  "fst (slugify T {||}) = slug_base T \<and>
   fst (slugify T (snd (slugify T {||}))) = slug_base T @ ''-2'' \<and>
   fst (slugify T (snd (slugify T used))) \<noteq> fst (slugify T used)"
proof -
  have "fst (slugify T (snd (slugify T used))) |\<notin>| snd (slugify T used)"
    by (rule slugify_fresh)
  moreover have "fst (slugify T used) |\<in>| snd (slugify T used)"
    by (simp add: slugify_snd)
  ultimately have "fst (slugify T (snd (slugify T used))) \<noteq> fst (slugify T used)"
    by metis
  then show ?thesis
    by (simp add: slugify_empty slugify_second numbered_def str_nat_2)
qed

theorem slugify_twice_witness:
  "fst (slugify ''Max Headroom'' {||}) = ''max-headroom'' \<and>
   fst (slugify ''Max Headroom'' (snd (slugify ''Max Headroom'' {||}))) = ''max-headroom-2''"
proof -
  have "slug_base ''Max Headroom'' = ''max-headroom''" by code_simp
  with slugify_twice [of "''Max Headroom''" "{||}"] show ?thesis by simp
qed

subsection \<open>Floats\<close>

text \<open>
  The model of the floats read in the reals: \<open>Fin m e\<close> is \<open>real m * 2 powi e\<close>, rounding
  moves a number by at most half a unit in the last place, and \<open>int\<close> is the floor.
\<close>

lemma scaled_real:
  "q > 0 \<Longrightarrow> scaled p q k = (a, b) \<Longrightarrow> b > 0 \<and> real a / real b = real p / (real q * 2 powi k)"
  by (auto simp: scaled_def power_int_def field_simps split: if_splits)

lemma rne_div_err:
  assumes "b > 0"
  shows "\<bar>real (rne_div a b) - real a / real b\<bar> \<le> 1 / 2"
proof -
  have eq: "real a = real (a div b) * real b + real (a mod b)"
    by (metis div_mult_mod_eq of_nat_add of_nat_mult)
  have lt: "real (a mod b) < real b" using assms by simp
  have "real a / real b = real (a div b) + real (a mod b) / real b"
    using assms by (subst eq) (simp add: field_simps)
  then show ?thesis using assms lt
    by (auto simp: rne_div_def Let_def field_simps abs_if)
qed

lemma rne_div_near:
  assumes "b > 0" and "\<bar>real a / real b - real M\<bar> < 1 / 2"
  shows "rne_div a b = M"
proof -
  have "\<bar>real (rne_div a b) - real M\<bar> < 1"
    using rne_div_err [OF assms(1), of a] assms(2) by linarith
  then have "\<bar>int (rne_div a b) - int M\<bar> < 1"
    by (metis (mono_tags, opaque_lifting) of_int_abs of_int_diff of_int_less_1_iff of_int_of_nat_eq)
  then show ?thesis by linarith
qed

lemma float_trunc_real:
  "float_trunc m k = nat \<lfloor>real m * 2 powi k\<rfloor>"
proof (cases "0 \<le> k")
  case True
  then have "real m * 2 powi k = real (m * 2 ^ nat k)"
    by (simp add: power_int_def)
  then show ?thesis using True by (simp add: float_trunc_def del: of_nat_mult of_nat_power)
next
  case False
  then have "real m * 2 powi k = real m / real (2 ^ nat (- k))"
    by (simp add: power_int_def field_simps)
  then show ?thesis using False
    by (simp add: float_trunc_def floor_divide_of_nat_eq del: of_nat_power)
qed


lemma floorlog_lower: "p > 0 \<Longrightarrow> 2 ^ (floorlog 2 p - 1) \<le> p"
  using floorlog_bounds [of p 2] by simp

lemma floorlog_upper: "p > 0 \<Longrightarrow> p < 2 ^ floorlog 2 p"
  using floorlog_bounds [of p 2] by simp

lemma floorlog_pos: "p > 0 \<Longrightarrow> floorlog 2 p \<ge> 1"
  using floorlog_eq_zero_iff [of 2 p] by (cases "floorlog 2 p") simp_all

lemma floorlog_pred: "p > 0 \<Longrightarrow> int (floorlog 2 p) - 1 = int (floorlog 2 p - 1)"
  using floorlog_pos [of p] by linarith

lemma powi_nat: "(2::real) powi int n = real (2 ^ n)"
  by simp

lemma floorlog_real_bounds:
  assumes "p > 0"
  shows "2 powi (int (floorlog 2 p) - 1) \<le> real p" and "real p < 2 powi (int (floorlog 2 p))"
proof -
  have "(2::real) powi (int (floorlog 2 p) - 1) = real (2 ^ (floorlog 2 p - 1))"
    unfolding floorlog_pred [OF assms] by (rule powi_nat)
  also have "\<dots> \<le> real p" by (rule of_nat_mono [OF floorlog_lower [OF assms]])
  finally show "2 powi (int (floorlog 2 p) - 1) \<le> real p" .
  have "real p < real (2 ^ floorlog 2 p)"
    by (rule iffD2 [OF of_nat_less_iff floorlog_upper [OF assms]])
  also have "\<dots> = 2 powi (int (floorlog 2 p))" by (rule powi_nat [symmetric])
  finally show "real p < 2 powi (int (floorlog 2 p))" .
qed

lemma powi_add2: "(2::real) powi a * 2 powi b = 2 powi (a + b)"
  by (rule power_int_add [symmetric]) simp

lemma float_exponent_bounds:
  assumes "p > 0" "q > 0"
  shows "2 powi (float_exponent p q) \<le> real p / real q"
    and "real p / real q < 2 powi (float_exponent p q + 1)"
proof -
  define e0 where "e0 = int (floorlog 2 p) - int (floorlog 2 q)"
  define fp where "fp = int (floorlog 2 p)"
  define fq where "fq = int (floorlog 2 q)"
  have e0: "e0 = fp - fq" by (simp add: e0_def fp_def fq_def)
  obtain a b where ab: "scaled p q e0 = (a, b)" by (cases "scaled p q e0")
  from scaled_real [OF assms(2) ab] have b: "b > 0"
    and r: "real a / real b = real p / (real q * 2 powi e0)" by auto
  have qpos: "real q > 0" using assms by simp
  have two: "(2::real) powi e0 > 0" by simp
  have test: "b \<le> a \<longleftrightarrow> 2 powi e0 \<le> real p / real q"
  proof -
    have "b \<le> a \<longleftrightarrow> 1 \<le> real a / real b" using b by simp
    also have "\<dots> \<longleftrightarrow> 1 \<le> real p / (real q * 2 powi e0)" by (simp only: r)
    also have "\<dots> \<longleftrightarrow> real q * 2 powi e0 \<le> real p"
      by (rule le_divide_eq_1_pos) (use qpos two in simp)
    also have "\<dots> \<longleftrightarrow> 2 powi e0 \<le> real p / real q"
      using qpos by (simp add: pos_le_divide_eq mult.commute)
    finally show ?thesis .
  qed
  have e: "float_exponent p q = (if b \<le> a then e0 else e0 - 1)"
    unfolding float_exponent_def Let_def e0_def [symmetric] ab by simp
  have p1: "2 powi (fp - 1) \<le> real p" and p2: "real p < 2 powi fp"
    unfolding fp_def by (rule floorlog_real_bounds [OF assms(1)])+
  have q1: "2 powi (fq - 1) \<le> real q" and q2: "real q < 2 powi fq"
    unfolding fq_def by (rule floorlog_real_bounds [OF assms(2)])+
  have up: "real p / real q < 2 powi (e0 + 1)"
  proof -
    have "(2::real) powi (e0 + 1) * 2 powi (fq - 1) = 2 powi (e0 + 1 + (fq - 1))"
      by (rule powi_add2)
    also have "e0 + 1 + (fq - 1) = fp" unfolding e0 by linarith
    finally have 3: "(2::real) powi (e0 + 1) * 2 powi (fq - 1) = 2 powi fp" .
    have "2 powi (e0 + 1) * 2 powi (fq - 1) \<le> 2 powi (e0 + 1) * real q"
      by (rule mult_left_mono [OF q1]) simp
    with p2 3 have "real p < 2 powi (e0 + 1) * real q" by linarith
    then show ?thesis using qpos by (simp only: pos_divide_less_eq)
  qed
  have lo: "2 powi (e0 - 1) \<le> real p / real q"
  proof -
    have "(2::real) powi (e0 - 1) * 2 powi fq = 2 powi (e0 - 1 + fq)"
      by (rule powi_add2)
    also have "e0 - 1 + fq = fp - 1" unfolding e0 by linarith
    finally have 3: "(2::real) powi (e0 - 1) * 2 powi fq = 2 powi (fp - 1)" .
    have "2 powi (e0 - 1) * real q \<le> 2 powi (e0 - 1) * 2 powi fq"
      by (rule mult_left_mono [OF less_imp_le [OF q2]]) simp
    with p1 3 have "2 powi (e0 - 1) * real q \<le> real p" by linarith
    then show ?thesis using qpos by (simp only: pos_le_divide_eq)
  qed
  show "2 powi (float_exponent p q) \<le> real p / real q"
  proof (cases "b \<le> a")
    case True
    then show ?thesis using e test by simp
  next
    case False
    then show ?thesis using e lo by simp
  qed
  show "real p / real q < 2 powi (float_exponent p q + 1)"
  proof (cases "b \<le> a")
    case True
    then show ?thesis using e up by simp
  next
    case False
    then have "real p / real q < 2 powi e0" using test by simp
    then show ?thesis using e False by simp
  qed
qed


lemma dbl_round_eq:
  assumes "p > 0" "- 1022 \<le> float_exponent p q" "float_exponent p q < 1023"
  shows "dbl_round p q =
    Fin (case scaled p q (float_exponent p q - 52) of (a, b) \<Rightarrow> rne_div a b) (float_exponent p q - 52)"
proof -
  have "max (float_exponent p q) (- 1022) = float_exponent p q" using assms(2) by simp
  moreover have "\<not> 971 \<le> float_exponent p q - 52" using assms(3) by simp
  ultimately show ?thesis using assms(1) by (simp add: dbl_round_def Let_def)
qed

lemma scaled_pos: "q > 0 \<Longrightarrow> scaled p q k = (a, b) \<Longrightarrow> b > 0"
  using scaled_real by blast

lemma scaled_quot:
  assumes "q > 0" "scaled p q k = (a, b)"
  shows "real a / real b = real p / real q / 2 powi k"
proof -
  have "real a / real b = real p / (real q * 2 powi k)"
    using scaled_real [OF assms] by blast
  also have "\<dots> = real p / real q / 2 powi k"
    by (rule divide_divide_eq_left [symmetric])
  finally show ?thesis .
qed

lemma dbl_round_near:
  assumes "p > 0" "q > 0" "float_exponent p q = e" "- 1022 \<le> e" "e < 1023"
    and "\<bar>real p / real q / 2 powi (e - 52) - real M\<bar> < 1 / 2"
  shows "dbl_round p q = Fin M (e - 52)"
proof -
  obtain a b where ab: "scaled p q (e - 52) = (a, b)" by (cases "scaled p q (e - 52)")
  have b: "b > 0" by (rule scaled_pos [OF assms(2) ab])
  have "\<bar>real a / real b - real M\<bar> < 1 / 2"
    unfolding scaled_quot [OF assms(2) ab] by (rule assms(6))
  from rne_div_near [OF b this] have m: "rne_div a b = M" .
  have "dbl_round p q = Fin (case scaled p q (e - 52) of (a, b) \<Rightarrow> rne_div a b) (e - 52)"
    using dbl_round_eq [of p q] assms(1,3,4,5) by blast
  then show ?thesis unfolding ab using m by simp
qed

lemma dbl_round_err:
  assumes "p > 0" "q > 0" "float_exponent p q = e" "- 1022 \<le> e" "e < 1023"
  obtains m where "dbl_round p q = Fin m (e - 52)"
    and "\<bar>real m - real p / real q / 2 powi (e - 52)\<bar> \<le> 1 / 2"
proof -
  obtain a b where ab: "scaled p q (e - 52) = (a, b)" by (cases "scaled p q (e - 52)")
  have b: "b > 0" by (rule scaled_pos [OF assms(2) ab])
  have 1: "\<bar>real (rne_div a b) - real p / real q / 2 powi (e - 52)\<bar> \<le> 1 / 2"
    using rne_div_err [OF b, of a] unfolding scaled_quot [OF assms(2) ab] .
  have "dbl_round p q = Fin (case scaled p q (e - 52) of (a, b) \<Rightarrow> rne_div a b) (e - 52)"
    using dbl_round_eq [of p q] assms(1,3,4,5) by blast
  then have "dbl_round p q = Fin (rne_div a b) (e - 52)" unfolding ab by simp
  with 1 show ?thesis using that by blast
qed

text \<open>Where the exponent of a fraction lies, from bounds by powers of two.\<close>

lemma float_exponent_ge:
  assumes "p > 0" "q > 0" "2 powi l \<le> real p / real q"
  shows "l \<le> float_exponent p q"
proof (rule ccontr)
  assume "\<not> l \<le> float_exponent p q"
  then have "float_exponent p q + 1 \<le> l" by simp
  then have "(2::real) powi (float_exponent p q + 1) \<le> 2 powi l"
    by (rule power_int_increasing) simp
  with float_exponent_bounds(2) [OF assms(1,2)] assms(3) show False by linarith
qed

lemma float_exponent_lt:
  assumes "p > 0" "q > 0" "real p / real q < 2 powi u"
  shows "float_exponent p q < u"
proof (rule ccontr)
  assume "\<not> float_exponent p q < u"
  then have "u \<le> float_exponent p q" by simp
  then have "(2::real) powi u \<le> 2 powi (float_exponent p q)"
    by (rule power_int_increasing) simp
  with float_exponent_bounds(1) [OF assms(1,2)] assms(3) show False by linarith
qed


lemma float_of_nat_exact:
  assumes "0 < n" "n < 2 ^ 53"
  obtains m k where "float_of_nat n = Fin m k" and "real m * 2 powi k = real n"
proof -
  define e where "e = float_exponent n 1"
  have one: "(0::nat) < 1" by simp
  have "2 powi 0 \<le> real n / real 1" using assms(1) by simp
  from float_exponent_ge [OF assms(1) one this] have e0: "0 \<le> e" by (simp add: e_def)
  have "real n < real (2 ^ 53)" using assms(2) by (simp only: of_nat_less_iff)
  then have "real n / real 1 < 2 powi 53" by simp
  from float_exponent_lt [OF assms(1) one this] have e1: "e < 53" by (simp add: e_def)
  define M where "M = n * 2 ^ nat (52 - e)"
  have pw: "(2::real) powi (e - 52) * 2 ^ nat (52 - e) = 1"
  proof -
    have "(2::real) ^ nat (52 - e) = 2 powi int (nat (52 - e))" by (rule power_int_of_nat [symmetric])
    also have "int (nat (52 - e)) = 52 - e" using e1 by simp
    finally have "(2::real) powi (e - 52) * 2 ^ nat (52 - e) = 2 powi (e - 52) * 2 powi (52 - e)" by simp
    also have "\<dots> = 2 powi (e - 52 + (52 - e))" by (rule powi_add2)
    also have "\<dots> = 1" by simp
    finally show ?thesis .
  qed
  have Mr: "real M = real n * 2 ^ nat (52 - e)" by (simp add: M_def)
  have q: "real n / real 1 / 2 powi (e - 52) = real M"
  proof -
    have "real M * 2 powi (e - 52) = real n * (2 powi (e - 52) * 2 ^ nat (52 - e))"
      unfolding Mr by (simp only: ac_simps)
    then have "real M * 2 powi (e - 52) = real n" unfolding pw by simp
    then show ?thesis by (simp add: field_simps)
  qed
  have "\<bar>real n / real 1 / 2 powi (e - 52) - real M\<bar> < 1 / 2" unfolding q by simp
  from dbl_round_near [OF assms(1) one e_def [symmetric] _ _ this] e0 e1
  have "float_of_nat n = Fin M (e - 52)" by (simp add: float_of_nat_def)
  moreover have "real M * 2 powi (e - 52) = real n"
  proof -
    have "real M * 2 powi (e - 52) = real n * (2 powi (e - 52) * 2 ^ nat (52 - e))"
      unfolding Mr by (simp only: ac_simps)
    then show ?thesis unfolding pw by simp
  qed
  ultimately show ?thesis using that by blast
qed

lemma float_mul_Fin:
  obtains p q where "float_mul (Fin a ea) (Fin b eb) = dbl_round p q" and "q > 0"
    and "real p / real q = (real a * 2 powi ea) * (real b * 2 powi eb)"
proof -
  obtain p q where pq: "scaled (a * b) 1 (- (ea + eb)) = (p, q)"
    by (cases "scaled (a * b) 1 (- (ea + eb))")
  have one: "(0::nat) < 1" by simp
  have q: "q > 0" by (rule scaled_pos [OF one pq])
  have "real p / real q = real (a * b) / real 1 / 2 powi (- (ea + eb))"
    by (rule scaled_quot [OF one pq])
  also have "\<dots> = real a * real b * 2 powi (ea + eb)"
    unfolding power_int_minus by (simp add: divide_inverse)
  also have "(2::real) powi (ea + eb) = 2 powi ea * 2 powi eb"
    by (rule powi_add2 [symmetric])
  finally have "real p / real q = (real a * 2 powi ea) * (real b * 2 powi eb)"
    by (simp only: ac_simps)
  moreover have "float_mul (Fin a ea) (Fin b eb) = dbl_round p q"
    unfolding float_mul.simps pq by simp
  ultimately show ?thesis using q that by blast
qed

lemma float_0_6_eq: "float_0_6 = Fin 5404319552844595 (- 53)"
  by (simp add: float_0_6_def dbl_round_def float_exponent_def scaled_def rne_div_def compute_floorlog)

lemma int_0_6_times_0: "int_0_6_times 0 = 0"
  by (simp add: int_0_6_times_def float_0_6_eq float_of_nat_def dbl_round_def scaled_def float_trunc_def)

lemma floor_between:
  fixes r :: real
  assumes "real T \<le> r" "r < real T + 1"
  shows "nat \<lfloor>r\<rfloor> = T"
proof -
  have "\<lfloor>r\<rfloor> = int T" using assms by (intro floor_unique) simp_all
  then show ?thesis by simp
qed

text \<open>
  \<^verbatim>\<open>int(0.6 * n)\<close> is three fifths of \<open>n\<close>, rounded down: the float \<^verbatim>\<open>0.6\<close> is
  \<open>(3 * 2 ^ 53 - 1) / (5 * 2 ^ 53)\<close>, the product is rounded to a multiple of five exactly
  where \<open>n\<close> is one, and stays clear of the next integer elsewhere.
\<close>

lemma int_0_6_times_floor:
  assumes "n < 2 ^ 50"
  shows "int_0_6_times n = 3 * n div 5"
proof (cases "n = 0")
  case True
  then show ?thesis by (simp add: int_0_6_times_0)
next
  case False
  then have npos: "0 < n" by simp
  have n53: "n < 2 ^ 53" using assms by simp
  obtain m k where mk: "float_of_nat n = Fin m k" and mkv: "real m * 2 powi k = real n"
    using float_of_nat_exact [OF npos n53] by blast
  obtain p q where pq: "float_mul (Fin 5404319552844595 (- 53)) (Fin m k) = dbl_round p q"
    and q: "q > 0"
    and v: "real p / real q = (real 5404319552844595 * 2 powi (- 53)) * (real m * 2 powi k)"
    using float_mul_Fin by blast
  define x where "x = real p / real q"
  define T where "T = 3 * n div 5"
  have x: "x = 5404319552844595 * real n / 9007199254740992"
    unfolding x_def v mkv by (simp add: power_int_minus)
  have nr: "real n < 1125899906842624"
  proof -
    have "real n < real (2 ^ 50)" using assms by (simp only: of_nat_less_iff)
    then show ?thesis by simp
  qed
  have n1: "1 \<le> real n" using npos by simp
  have xpos: "0 < x" using n1 unfolding x by simp
  have p: "p > 0"
  proof (rule ccontr)
    assume "\<not> p > 0"
    then have "real p / real q = 0" by simp
    with xpos show False by (simp add: x_def)
  qed
  define e where "e = float_exponent p q"
  have "2 powi (- 1) \<le> x" using n1 unfolding x by (simp add: power_int_minus)
  then have e_lo: "- 1 \<le> e"
    unfolding e_def x_def by (rule float_exponent_ge [OF p q])
  have "x < 2 powi 50" using nr unfolding x by simp
  then have e_hi: "e < 50"
    unfolding e_def x_def by (rule float_exponent_lt [OF p q])
  define u :: real where "u = 2 powi (e - 52)"
  have upos: "0 < u" by (simp add: u_def)
  have u8: "u \<le> 1 / 8"
  proof -
    have "e - 52 \<le> - 3" using e_hi by simp
    then have "(2::real) powi (e - 52) \<le> 2 powi (- 3)" by (rule power_int_increasing) simp
    then show ?thesis by (simp add: u_def power_int_minus)
  qed
  have xb1: "2 powi e \<le> x" and xb2: "x < 2 powi (e + 1)"
    unfolding e_def x_def by (rule float_exponent_bounds [OF p q])+
  have r5: "real (3 * n) = 5 * real T + real (3 * n mod 5)"
    unfolding T_def by (metis div_mult_mod_eq mult.commute of_nat_add of_nat_mult of_nat_numeral)
  have tr: "int_0_6_times n = (case dbl_round p q of Fin m e \<Rightarrow> float_trunc m e | _ \<Rightarrow> 0)"
    by (simp only: int_0_6_times_def float_0_6_eq mk pq)
  show ?thesis
  proof (cases "3 * n mod 5 = 0")
    case False
    then have rho: "1 \<le> real (3 * n mod 5)" "real (3 * n mod 5) \<le> 4"
      by (simp_all add: Suc_leI)
    obtain M where M: "dbl_round p q = Fin M (e - 52)"
      and err: "\<bar>real M - real p / real q / 2 powi (e - 52)\<bar> \<le> 1 / 2"
      using dbl_round_err [OF p q e_def [symmetric]] e_lo e_hi by force
    have "\<bar>real M - x / u\<bar> \<le> 1 / 2" using err by (simp add: x_def u_def)
    then have "\<bar>real M * u - x\<bar> \<le> u / 2"
      using upos by (simp add: field_simps abs_if split: if_splits)
    with u8 have near: "\<bar>real M * u - x\<bar> \<le> 1 / 16" by linarith
    have "real T \<le> real M * u" "real M * u < real T + 1"
      using near rho r5 nr n1 unfolding x by (simp_all add: abs_if split: if_splits)
    then have "nat \<lfloor>real M * u\<rfloor> = T" by (rule floor_between)
    then show ?thesis
      unfolding tr M by (simp add: float_trunc_real u_def T_def)
  next
    case True
    then have "\<exists>j. n = 5 * j" by presburger
    then obtain j where j: "n = 5 * j" by blast
    have jpos: "0 < j" using npos j by simp
    have Tj: "T = 3 * j" by (simp add: T_def j)
    have xj: "x = 3 * real j - real j / 9007199254740992"
      unfolding x j by simp
    have j1: "1 \<le> real j" using jpos by simp
    have "2 * real j \<le> x" unfolding xj using j1 by simp
    with xb2 have "2 * real j < 2 powi (e + 1)" by linarith
    also have "(2::real) powi (e + 1) = 2 powi e * 2 powi 1" by (rule powi_add2 [symmetric])
    finally have je: "real j < 2 powi e" by simp
    have epos: "0 \<le> e"
    proof (rule ccontr)
      assume "\<not> 0 \<le> e"
      then have "e \<le> - 1" by simp
      then have "(2::real) powi e \<le> 2 powi (- 1)" by (rule power_int_increasing) simp
      with je j1 show False by (simp add: power_int_minus)
    qed
    define w :: real where "w = 2 ^ nat (52 - e)"
    have w_powi: "w = 2 powi (52 - e)"
    proof -
      have "w = 2 powi int (nat (52 - e))" unfolding w_def by (rule power_int_of_nat [symmetric])
      also have "int (nat (52 - e)) = 52 - e" using e_hi by simp
      finally show ?thesis .
    qed
    have uw: "u * w = 1"
    proof -
      have "u * w = 2 powi (e - 52 + (52 - e))" unfolding u_def w_powi by (rule powi_add2)
      also have "\<dots> = 1" by simp
      finally show ?thesis .
    qed
    have ew: "2 powi e * w = 4503599627370496"
    proof -
      have "2 powi e * w = 2 powi (e + (52 - e))" unfolding w_powi by (rule powi_add2)
      also have "e + (52 - e) = 52" by simp
      finally show ?thesis by simp
    qed
    have wpos: "0 < w" by (simp add: w_def)
    have w_inv: "w = 1 / u" using uw upos by (simp add: field_simps)
    define N where "N = T * 2 ^ nat (52 - e)"
    have Nr: "real N = real T * w" by (simp add: N_def w_def)
    have "real j * w < 2 powi e * w" using je wpos by simp
    then have jw: "real j * w < 4503599627370496" unfolding ew .
    have "x / u - real N = x * w - real T * w" unfolding Nr w_inv by simp
    also have "\<dots> = - (real j * w) / 9007199254740992"
      unfolding xj Tj by (simp add: algebra_simps)
    finally have "\<bar>x / u - real N\<bar> = real j * w / 9007199254740992"
      using j1 wpos by simp
    with jw have "\<bar>x / u - real N\<bar> < 1 / 2" by simp
    then have "\<bar>real p / real q / 2 powi (e - 52) - real N\<bar> < 1 / 2"
      unfolding x_def u_def .
    from dbl_round_near [OF p q e_def [symmetric] _ _ this] e_lo e_hi
    have N: "dbl_round p q = Fin N (e - 52)" by simp
    have "real N * u = real T" unfolding Nr using uw by (simp add: mult.assoc mult.commute)
    then have "nat \<lfloor>real N * 2 powi (e - 52)\<rfloor> = T" unfolding u_def by simp
    then show ?thesis
      unfolding tr N by (simp add: float_trunc_real T_def)
  qed
qed

subsection \<open>Table layout\<close>

lemma py_max_Max: "xs \<noteq> [] \<Longrightarrow> py_max xs = Max (set xs)"
  by (induction xs rule: py_max.induct) simp_all

lemma max_cols_two: "max_cols rs = 2 \<longleftrightarrow> max_cells_is_two rs"
proof -
  let ?A = "length ` {r \<in> set rs. r \<noteq> []}"
  show ?thesis
  proof (cases "filter (\<lambda>r. r \<noteq> []) rs = []")
    case True
    then have "\<forall>r \<in> set rs. r = []" by (simp add: filter_empty_conv)
    then have "\<not> max_cells_is_two rs"
      by (auto simp: max_cells_is_two_def list_ex_iff)
    with True show ?thesis by (simp add: max_cols_def)
  next
    case False
    then have ne: "?A \<noteq> {}" by (auto simp: filter_empty_conv)
    have "max_cols rs = Max ?A"
      using False by (simp add: max_cols_def py_max_Max)
    moreover have "Max ?A = 2 \<longleftrightarrow> 2 \<in> ?A \<and> (\<forall>a \<in> ?A. a \<le> 2)"
      using ne by (intro Max_eq_iff) simp_all
    moreover have "2 \<in> ?A \<longleftrightarrow> list_ex (\<lambda>r. length r = 2) rs"
      by (auto simp: list_ex_iff image_iff)
    moreover have "(\<forall>a \<in> ?A. a \<le> 2) \<longleftrightarrow> list_all (\<lambda>r. length r \<le> 2) rs"
      by (auto simp: list_all_iff)
    ultimately show ?thesis by (simp add: max_cells_is_two_def)
  qed
qed

lemma key_value_style_floor:
  "length rs < 2 ^ 50 \<Longrightarrow> key_value_style rs = key_value_rounded_down rs"
  by (simp add: key_value_style_def key_value_rounded_down_def max_cols_two
      int_0_6_times_floor threshold_down_def two_cell_rows_def)

text \<open>
  Claim C1, as amended. A table is classified as key-value layout if and only if the
  maximum number of cells over its non-empty rows equals 2 and the number of rows with
  exactly 2 cells is at least 60% of the row count rounded down, with a minimum of 1:
  \<^verbatim>\<open>int(0.6 * len(rows))\<close> cuts the fraction off. (The bound on the number of rows is where
  the float product is proved exact enough; no list a machine holds reaches it.)
\<close>

theorem key_value_style_rounds_down:
  "length rs < 2 ^ 50 \<Longrightarrow> key_value_style rs = key_value_rounded_down rs"
  by (rule key_value_style_floor)

lemma ex_rows_2_1:
  "table_rows [''{|'', ''| a || b'', ''|-'', ''| c'', ''|}''] = [[(''a'', False), (''b'', False)], [(''c'', False)]]"
  by code_simp

theorem key_value_style_rounds_down_witness:
  "key_value_style (table_rows [''{|'', ''| a || b'', ''|-'', ''| c'', ''|}''])"
proof -
  have "length (table_rows [''{|'', ''| a || b'', ''|-'', ''| c'', ''|}'']) < 2 ^ 50"
    by (simp add: ex_rows_2_1)
  from key_value_style_rounds_down [OF this] show ?thesis
    by (simp add: ex_rows_2_1 key_value_rounded_down_def max_cells_is_two_def threshold_down_def
        two_cell_rows_def)
qed

text \<open>
  Claim C1 as stated fails: a table of a two-cell row and a one-cell row is key-value
  layout, with one two-cell row where 60% of two rows, rounded up, asks for two.
\<close>

theorem key_value_rounded_up_counterexample:
  "key_value_style (table_rows [''{|'', ''| a || b'', ''|-'', ''| c'', ''|}'']) \<and>
   \<not> key_value_rounded_up (table_rows [''{|'', ''| a || b'', ''|-'', ''| c'', ''|}''])"
proof -
  have "key_value_style [[(''a'', False), (''b'', False)], [(''c'', False)]]"
    by (simp add: key_value_style_def max_cols_def int_0_6_times_floor)
  moreover have "\<not> key_value_rounded_up [[(''a'', False), (''b'', False)], [(''c'', False)]]"
    by (simp add: key_value_rounded_up_def threshold_up_def two_cell_rows_def)
  ultimately show ?thesis by (simp add: ex_rows_2_1)
qed

lemma wide_row_not_key_value:
  assumes "list_ex (\<lambda>r. 2 < length r) rs"
  shows "\<not> key_value_style rs"
proof -
  from assms have "\<not> list_all (\<lambda>r. length r \<le> 2) rs"
    by (force simp: list_ex_iff list_all_iff)
  then have "\<not> max_cells_is_two rs" by (simp add: max_cells_is_two_def)
  then show ?thesis by (simp add: key_value_style_def max_cols_two)
qed

lemma ex_rows_2_2_2:
  "table_rows [''{|'', ''| a || b'', ''|-'', ''| c || d'', ''|-'', ''| e || f'', ''|}'']
   = [[(''a'', False), (''b'', False)], [(''c'', False), (''d'', False)], [(''e'', False), (''f'', False)]]"
  by code_simp

lemma ex_rows_2_2_3:
  "table_rows [''{|'', ''| a || b'', ''|-'', ''| c || d'', ''|-'', ''| e || f || g'', ''|}'']
   = [[(''a'', False), (''b'', False)], [(''c'', False), (''d'', False)],
      [(''e'', False), (''f'', False), (''g'', False)]]"
  by code_simp

lemma ex_rows_2_3_3:
  "table_rows [''{|'', ''| a || b'', ''|-'', ''| c || d || x'', ''|-'', ''| e || f || g'', ''|}'']
   = [[(''a'', False), (''b'', False)], [(''c'', False), (''d'', False), (''x'', False)],
      [(''e'', False), (''f'', False), (''g'', False)]]"
  by code_simp

text \<open>
  Claim C2, as amended. A three-row table whose rows all have exactly 2 cells classifies as
  key-value layout. A three-row table with a row of 3 cells classifies as generic, whether
  one row has 3 cells (the maximum is then 3, not 2, whatever the ratio of two-cell rows) or
  two rows have.
\<close>

theorem three_row_table_layouts:
  assumes "length rs = 3"
  shows "(list_all (\<lambda>r. length r = 2) rs \<longrightarrow> key_value_style rs) \<and>
         (list_ex (\<lambda>r. length r = 3) rs \<longrightarrow> \<not> key_value_style rs)"
proof (intro conjI impI)
  assume all2: "list_all (\<lambda>r. length r = 2) rs"
  from assms obtain r rs' where rs: "rs = r # rs'" by (cases rs) auto
  with all2 have "list_ex (\<lambda>r. length r = 2) rs" by simp
  moreover from all2 have "list_all (\<lambda>r. length r \<le> 2) rs"
    by (auto simp: list_all_iff)
  moreover from all2 have "filter (\<lambda>r. length r = 2) rs = rs"
    by (simp add: list_all_iff)
  ultimately have "key_value_rounded_down rs"
    using assms
    by (simp add: key_value_rounded_down_def max_cells_is_two_def threshold_down_def two_cell_rows_def)
  moreover have "length rs < 2 ^ 50" using assms by simp
  ultimately show "key_value_style rs" by (simp add: key_value_style_floor)
next
  assume "list_ex (\<lambda>r. length r = 3) rs"
  then have "list_ex (\<lambda>r. 2 < length r) rs" by (force simp: list_ex_iff)
  then show "\<not> key_value_style rs" by (rule wide_row_not_key_value)
qed

theorem three_row_table_layouts_witness:
  "key_value_style (table_rows [''{|'', ''| a || b'', ''|-'', ''| c || d'', ''|-'', ''| e || f'', ''|}'']) \<and>
   \<not> key_value_style (table_rows [''{|'', ''| a || b'', ''|-'', ''| c || d'', ''|-'', ''| e || f || g'', ''|}'']) \<and>
   \<not> key_value_style (table_rows [''{|'', ''| a || b'', ''|-'', ''| c || d || x'', ''|-'', ''| e || f || g'', ''|}''])"
  using three_row_table_layouts [of "table_rows [''{|'', ''| a || b'', ''|-'', ''| c || d'', ''|-'', ''| e || f'', ''|}'']"]
    three_row_table_layouts [of "table_rows [''{|'', ''| a || b'', ''|-'', ''| c || d'', ''|-'', ''| e || f || g'', ''|}'']"]
    three_row_table_layouts [of "table_rows [''{|'', ''| a || b'', ''|-'', ''| c || d || x'', ''|-'', ''| e || f || g'', ''|}'']"]
  by (simp add: ex_rows_2_2_2 ex_rows_2_2_3 ex_rows_2_3_3)

text \<open>
  Claim C2 as stated fails: with two rows of 2 cells and one row of 3 cells the table is
  not key-value layout.
\<close>

theorem three_cell_row_counterexample:
  "\<not> key_value_style (table_rows [''{|'', ''| a || b'', ''|-'', ''| c || d'', ''|-'', ''| e || f || g'', ''|}''])"
  by (rule wide_row_not_key_value) (simp add: ex_rows_2_2_3)

subsection \<open>Nested lists\<close>

lemma abc_list_lines: "split [CHR 0x0A] abc_list = [''* a'', ''** b'', ''* c'']"
  by code_simp

lemma abc_depth_1: "depth_of (after_lines lft md [''* a'']) = Some 1"
  by code_simp

lemma abc_depth_2: "depth_of (after_lines lft md [''* a'', ''** b'']) = Some 2"
  by code_simp

lemma abc_depth_3: "depth_of (after_lines lft md [''* a'', ''** b'', ''* c'']) = Some 1"
  by code_simp

lemma abc_output:
  "output_of (after_lines lft md [''* a'', ''** b'', ''* c'']) =
   Some [''<ul>'', ''<li>a</li>'', ''<ul>'', ''<li>b</li>'', ''</ul>'', ''<li>c</li>'']"
  by code_simp

lemma abc_page:
  "page_lines (convert lft md title abc_list) =
   Some [''<ul>'', ''<li>a</li>'', ''<ul>'', ''<li>b</li>'', ''</ul>'', ''<li>c</li>'', ''</ul>'']"
  by code_simp

lemma abc_closes:
  "closes_between ''<li>b</li>'' ''<li>c</li>''
     [''<ul>'', ''<li>a</li>'', ''<ul>'', ''<li>b</li>'', ''</ul>'', ''<li>c</li>'', ''</ul>''] = 1"
  by code_simp

lemma abc_closes_all:
  "length (filter is_list_close
     [''<ul>'', ''<li>a</li>'', ''<ul>'', ''<li>b</li>'', ''</ul>'', ''<li>c</li>'', ''</ul>'']) = 2"
  by code_simp

text \<open>
  Claim C3, as amended. For the input lines \<^verbatim>\<open>* a\<close>, \<^verbatim>\<open>** b\<close>, \<^verbatim>\<open>* c\<close> the converter is
  at nesting depth 1 after item a, opens depth 2 for item b and is back at depth 1 when it
  has written item c; exactly one list close occurs in the output between item b and
  item c, and the second of the two closes of the page follows item c.
\<close>

theorem nested_list_closes_once:
  "depth_of (after_lines lft md [''* a'']) = Some 1 \<and>
   depth_of (after_lines lft md [''* a'', ''** b'']) = Some 2 \<and>
   depth_of (after_lines lft md (split [CHR 0x0A] abc_list)) = Some 1 \<and>
   page_lines (convert lft md title abc_list) =
     Some [''<ul>'', ''<li>a</li>'', ''<ul>'', ''<li>b</li>'', ''</ul>'', ''<li>c</li>'', ''</ul>''] \<and>
   map_option (closes_between ''<li>b</li>'' ''<li>c</li>'') (page_lines (convert lft md title abc_list)) = Some 1 \<and>
   map_option (\<lambda>ls. length (filter is_list_close ls)) (page_lines (convert lft md title abc_list)) = Some 2"
  unfolding abc_list_lines abc_page option.map abc_closes abc_closes_all
  by (intro conjI abc_depth_1 abc_depth_2 abc_depth_3 refl)

theorem nested_list_closes_once_witness:
  "map_option (closes_between ''<li>b</li>'' ''<li>c</li>'')
     (page_lines (convert (\<lambda>t l. []) Html ''List'' abc_list)) = Some 1"
  using nested_list_closes_once [of "\<lambda>t l. []" Html "''List''"] by blast

text \<open>Claim C3 as stated fails: the closes between item b and item c are not two.\<close>

theorem two_closes_between_counterexample:
  "map_option (closes_between ''<li>b</li>'' ''<li>c</li>'')
     (page_lines (convert (\<lambda>t l. []) Html ''List'' abc_list)) \<noteq> Some 2"
  unfolding abc_page option.map abc_closes by simp

subsection \<open>File embeds\<close>

lemma startswith_append: "startswith (t @ r) t"
  by (induction t) simp_all

lemma contains_startswith: "startswith s t \<Longrightarrow> contains s t"
  by (cases s) (auto elim: startswith.elims)

lemma contains_right: "contains ys t \<Longrightarrow> contains (xs @ ys) t"
  by (induction xs) (simp_all add: contains_startswith)

lemma startswith_left: "startswith xs t \<Longrightarrow> startswith (xs @ ys) t"
  by (induction xs t rule: startswith.induct) simp_all

lemma contains_left: "contains xs t \<Longrightarrow> contains (xs @ ys) t"
proof (induction xs)
  case Nil
  then show ?case by (cases ys) simp_all
next
  case (Cons x xs)
  then show ?case using startswith_left [of "x # xs" t ys] by auto
qed

lemma contains_mid: "contains (p @ t @ r) t"
  by (intro contains_right contains_left contains_startswith startswith_append [of t "[]", simplified])

lemma file_opt_caption:
  "is_caption_token c \<Longrightarrow> file_opt st (i, c) = Inr (st\<lparr>last_explicit_caption_idx := Some i\<rparr>)"
  by (simp add: is_caption_token_def file_opt_def Let_def known_flags_def)

lemma file_opts_loop_append:
  "file_opts_loop st (xs @ [x]) =
     (case file_opts_loop st xs of Inl e \<Rightarrow> Inl e | Inr st' \<Rightarrow> file_opt st' x)"
  by (induction xs arbitrary: st) (auto split: sum.splits)

lemma file_opt_technical:
  "file_opt st io = Inr st' \<Longrightarrow> technical_indices st' \<subseteq> insert (fst io) (technical_indices st)"
  by (auto simp: file_opt_def Let_def add_technical_def size_opt_def upright_opt_def
      split: if_splits option.splits sum.splits)

lemma file_opts_loop_technical:
  "file_opts_loop st ios = Inr st' \<Longrightarrow> technical_indices st' \<subseteq> technical_indices st \<union> fst ` set ios"
proof (induction ios arbitrary: st)
  case Nil
  then show ?case by simp
next
  case (Cons io ios)
  then obtain st1 where 1: "file_opt st io = Inr st1" and 2: "file_opts_loop st1 ios = Inr st'"
    by (auto split: sum.splits)
  from Cons.IH [OF 2] file_opt_technical [OF 1] show ?case by auto
qed

lemma enumerate_from0_snoc: "enumerate_from0 (xs @ [x]) = enumerate_from0 xs @ [(length xs, x)]"
  by (simp add: enumerate_from0_def)

lemma caption_added:
  assumes "file_opts_loop fopts_init (enumerate_from0 opts) = Inr st" "is_caption_token c"
  shows "file_opts_loop fopts_init (enumerate_from0 (opts @ [c]))
           = Inr (st\<lparr>last_explicit_caption_idx := Some (length opts)\<rparr>)"
    and "caption_of (opts @ [c]) (st\<lparr>last_explicit_caption_idx := Some (length opts)\<rparr>) = strip c"
    and "strip c \<noteq> []"
proof -
  show "file_opts_loop fopts_init (enumerate_from0 (opts @ [c]))
           = Inr (st\<lparr>last_explicit_caption_idx := Some (length opts)\<rparr>)"
    by (simp add: enumerate_from0_snoc file_opts_loop_append assms file_opt_caption)
  have "fst ` set (enumerate_from0 opts) \<subseteq> {0..<length opts}"
    by (auto simp: enumerate_from0_def dest: set_zip_leftD)
  with file_opts_loop_technical [OF assms(1)]
  have "technical_indices st \<subseteq> {0..<length opts}"
    by (simp add: fopts_init_def)
  then have "length opts \<notin> technical_indices st" by auto
  then show "caption_of (opts @ [c]) (st\<lparr>last_explicit_caption_idx := Some (length opts)\<rparr>) = strip c"
    by (simp add: caption_of_def)
  show "strip c \<noteq> []" using assms(2) by (simp add: is_caption_token_def Let_def)
qed


lemma file_render_figure_shape:
  assumes "\<not> (is_youtube_link (link_target st) \<and> contains (lower fn) ''youtube'' \<and> caption_of opts st = [])"
  obtains pre post where
    "file_render lft Html fn opts st =
       ''<figure '' @ pre @ img_html_of st fn @ post @ file_name_div fn
       @ figcaption (caption_of opts st) @ ''</figure>''"
proof (cases "link_truthy (link_target st)")
  case None
  show ?thesis
    by (rule that [of "''class='' @ dq @ escape (join '' '' (classes st)) @ dq @ ''>''" "[]"])
       (use assms None in \<open>simp add: file_render_def Let_def img_html_of_def file_name_div_def figcaption_def\<close>)
next
  case (Some l)
  show ?thesis
  proof (cases "is_http l")
    case True
    show ?thesis
      by (rule that [of "''class='' @ dq @ escape (join '' '' (classes st)) @ dq @ ''>''
            @ ''<a href='' @ sq @ escape l @ sq @ ''>''" "''</a>''"])
         (use assms Some True in \<open>simp add: file_render_def Let_def img_html_of_def file_name_div_def figcaption_def\<close>)
  next
    case False
    show ?thesis
      by (rule that [of "''class='' @ dq @ escape (join '' '' (classes st)) @ dq @ ''>''
            @ ''<a href='' @ sq @ escape (href_of_anchor (lft (strip_chars ''[]'' l) ''__PLACEHOLDER__'')) @ sq @ ''>''" "''</a>''"])
         (use assms Some False in \<open>simp add: file_render_def Let_def img_html_of_def file_name_div_def figcaption_def\<close>)
  qed
qed

lemma file_render_is_figure:
  assumes "\<not> (is_youtube_link (link_target st) \<and> contains (lower fn) ''youtube'' \<and> caption_of opts st = [])"
  shows "is_figure (file_render lft Html fn opts st)"
    and "contains (file_render lft Html fn opts st) (figcaption (caption_of opts st))"
proof -
  obtain pre post where r: "file_render lft Html fn opts st =
       ''<figure '' @ pre @ img_html_of st fn @ post @ file_name_div fn
       @ figcaption (caption_of opts st) @ ''</figure>''"
    using file_render_figure_shape [OF assms] by blast
  have 1: "startswith (file_render lft Html fn opts st) ''<figure ''"
    unfolding r by (rule startswith_append)
  have "startswith (img_html_of st fn) ''<img ''" by (simp add: img_html_of_def)
  then have "contains (img_html_of st fn @ post @ file_name_div fn
       @ figcaption (caption_of opts st) @ ''</figure>'') ''<img ''"
    by (intro contains_left contains_startswith)
  from contains_right [OF this, of "''<figure '' @ pre"]
  have 2: "contains (file_render lft Html fn opts st) ''<img ''"
    by (simp add: r)
  have "contains (''</figure>'') ''</figure>''" by simp
  from contains_right [OF this, of "''<figure '' @ pre @ img_html_of st fn @ post @ file_name_div fn
       @ figcaption (caption_of opts st)"]
  have 3: "contains (file_render lft Html fn opts st) ''</figure>''"
    by (simp add: r)
  from 1 2 3 show "is_figure (file_render lft Html fn opts st)" by (simp add: is_figure_def)
  have "contains (figcaption (caption_of opts st) @ ''</figure>'') (figcaption (caption_of opts st))"
    by (intro contains_startswith startswith_append)
  from contains_right [OF this, of "''<figure '' @ pre @ img_html_of st fn @ post @ file_name_div fn"]
  show "contains (file_render lft Html fn opts st) (figcaption (caption_of opts st))"
    by (simp add: r)
qed

lemma file_render_youtube:
  assumes "link_target st = Some l" "l \<noteq> []"
    "contains (lower l) ''youtube.com'' \<or> contains (lower l) ''youtu.be''"
    "contains (lower fn) ''youtube''" "caption_of opts st = []"
  shows "file_render lft Html fn opts st = youtube_anchor l"
  using assms by (simp add: file_render_def Let_def is_youtube_link_def link_truthy_def youtube_anchor_def)

lemma video_span_html: "inline lft Html video_span = Inr video_figure"
  by code_simp

lemma video_figure_is_figure: "is_figure video_figure"
  by code_simp

lemma video_figure_no_caption: "\<not> contains video_figure ''<figcaption>''"
  by code_simp

lemma video_figure_not_anchor: "video_figure \<noteq> youtube_anchor ''https://youtu.be/xyz''"
  by code_simp

lemma youtube_span_html:
  "inline lft Html youtube_span = Inr (youtube_anchor ''https://youtu.be/xyz'')"
  by code_simp

lemma caption_makes_figure:
  assumes "file_opts_loop fopts_init (enumerate_from0 opts) = Inr st" "is_caption_token c"
  shows "\<exists>st'. file_opts_loop fopts_init (enumerate_from0 (opts @ [c])) = Inr st' \<and>
           caption_of (opts @ [c]) st' = strip c \<and>
           is_figure (file_render lft Html fn (opts @ [c]) st') \<and>
           contains (file_render lft Html fn (opts @ [c]) st')
             (''<figcaption>'' @ escape (strip c) @ ''</figcaption>'')"
proof -
  let ?st = "st\<lparr>last_explicit_caption_idx := Some (length opts)\<rparr>"
  note c = caption_added [OF assms]
  have n: "\<not> (is_youtube_link (link_target ?st) \<and> contains (lower fn) ''youtube''
              \<and> caption_of (opts @ [c]) ?st = [])"
    using c(2,3) by simp
  have "figcaption (caption_of (opts @ [c]) ?st) = ''<figcaption>'' @ escape (strip c) @ ''</figcaption>''"
    using c(2,3) by (simp add: figcaption_def)
  with file_render_is_figure [OF n, of lft] c(1,2) show ?thesis by auto
qed

text \<open>
  Claim C5, as amended. The embed \<^verbatim>\<open>File:Video.ogg|thumb|link=https://youtu.be/xyz\<close> has a
  YouTube link target and no caption, but its file name does not hold "youtube": it
  renders as an image figure without caption, not as a plain link. The same embed of a
  file whose name holds "youtube" renders as the plain "YouTube" text link. Adding any
  caption token to the options of an embed makes it render as a figure that holds an image
  and the caption. (In HTML mode, the mode that writes figures.)
\<close>

theorem youtube_link_needs_youtube_file_name:
  "inline lft Html video_span = Inr video_figure \<and> is_figure video_figure \<and>
   \<not> contains video_figure ''<figcaption>'' \<and>
   inline lft Html youtube_span = Inr (youtube_anchor ''https://youtu.be/xyz'') \<and>
   (file_opts_loop fopts_init (enumerate_from0 opts) = Inr st \<and> is_caption_token c \<longrightarrow>
      (\<exists>st'. file_opts_loop fopts_init (enumerate_from0 (opts @ [c])) = Inr st' \<and>
             caption_of (opts @ [c]) st' = strip c \<and>
             is_figure (file_render lft Html fn (opts @ [c]) st') \<and>
             contains (file_render lft Html fn (opts @ [c]) st')
               (''<figcaption>'' @ escape (strip c) @ ''</figcaption>'')))"
  using video_span_html video_figure_is_figure video_figure_no_caption youtube_span_html
    caption_makes_figure by blast

lemma youtube_options:
  "file_opts_loop fopts_init (enumerate_from0 [''thumb'', ''link=https://youtu.be/xyz'']) =
     Inr (fopts_init\<lparr>link_target := Some ''https://youtu.be/xyz'',
            classes := [''file-ref'', ''mode-thumb''], technical_indices := {0, 1}\<rparr>)"
  by code_simp

lemma a_clip_is_caption: "is_caption_token ''A clip''"
  by code_simp

theorem youtube_link_needs_youtube_file_name_witness:
  "\<exists>st'. file_opts_loop fopts_init (enumerate_from0 ([''thumb'', ''link=https://youtu.be/xyz''] @ [''A clip''])) = Inr st' \<and>
         caption_of ([''thumb'', ''link=https://youtu.be/xyz''] @ [''A clip'']) st' = strip ''A clip'' \<and>
         is_figure (file_render (\<lambda>t l. []) Html ''YouTube.ogg'' ([''thumb'', ''link=https://youtu.be/xyz''] @ [''A clip'']) st') \<and>
         contains (file_render (\<lambda>t l. []) Html ''YouTube.ogg'' ([''thumb'', ''link=https://youtu.be/xyz''] @ [''A clip'']) st')
           (''<figcaption>'' @ escape (strip ''A clip'') @ ''</figcaption>'')"
  using youtube_link_needs_youtube_file_name [of "\<lambda>t l. []"
      "[''thumb'', ''link=https://youtu.be/xyz'']" _ "''A clip''" "''YouTube.ogg''"]
    youtube_options a_clip_is_caption by blast

text \<open>
  Claim C5 as stated fails: the embed of \<^verbatim>\<open>Video.ogg\<close> does not render as the plain
  "YouTube" link.
\<close>

theorem video_embed_counterexample:
  "inline (\<lambda>t l. []) Html video_span \<noteq> Inr (youtube_anchor ''https://youtu.be/xyz'')"
  unfolding video_span_html using video_figure_not_anchor by simp

subsection \<open>The upright option\<close>

lemma float_222: "float_mul (float_of_nat 600) float_0_37 = Fin 7810930603720704 (- 45)"
  by (simp add: float_of_nat_def float_0_37_def dbl_round_def float_exponent_def scaled_def rne_div_def compute_floorlog)

lemma float_222_val: "float_val (float_mul (float_of_nat 600) float_0_37) = 222"
  by (simp add: float_222 float_val_def power_int_minus)

lemma dbl_round_not_NaN: "dbl_round p q \<noteq> NaN"
  by (simp add: dbl_round_def Let_def)

lemma int_of_float_floor: "int_of_float x = Inr (Some n) \<Longrightarrow> n = nat \<lfloor>float_val x\<rfloor>"
  by (cases x) (simp_all add: float_val_def float_trunc_real)

lemma three_quarters_floor:
  assumes "w < 2 ^ 50"
  shows "three_quarters w = Inr (Some (3 * w div 4))"
proof (cases "w = 0")
  case True
  then show ?thesis
    by (simp add: three_quarters_def int_truediv_def dbl_round_def float_trunc_def)
next
  case False
  then have p: "0 < w * 3" by simp
  have q: "(0::nat) < 4" by simp
  define x where "x = real (w * 3) / real (4::nat)"
  define e where "e = float_exponent (w * 3) 4"
  have w1: "1 \<le> real w" using False by simp
  have wr: "real w < 1125899906842624"
  proof -
    have "real w < real (2 ^ 50)" using assms by (simp only: of_nat_less_iff)
    then show ?thesis by simp
  qed
  have "2 powi (- 1) \<le> x" using w1 unfolding x_def by (simp add: power_int_minus)
  then have e_lo: "- 1 \<le> e" unfolding e_def x_def by (rule float_exponent_ge [OF p q])
  have "x < 2 powi 50" using wr unfolding x_def by simp
  then have e_hi: "e < 50" unfolding e_def x_def by (rule float_exponent_lt [OF p q])
  define v :: real where "v = 2 ^ nat (50 - e)"
  define u :: real where "u = 2 powi (e - 52)"
  have v_powi: "v = 2 powi (50 - e)"
  proof -
    have "v = 2 powi int (nat (50 - e))" unfolding v_def by (rule power_int_of_nat [symmetric])
    also have "int (nat (50 - e)) = 50 - e" using e_hi by simp
    finally show ?thesis .
  qed
  have uv: "u * v = 1 / 4"
  proof -
    have "u * v = 2 powi (e - 52 + (50 - e))" unfolding u_def v_powi by (rule powi_add2)
    also have "e - 52 + (50 - e) = - 2" by simp
    finally show ?thesis by (simp add: power_int_minus)
  qed
  have upos: "0 < u" by (simp add: u_def)
  define N where "N = w * 3 * 2 ^ nat (50 - e)"
  have Nr: "real N = real (w * 3) * v" by (simp add: N_def v_def)
  have "real N * u = real (w * 3) * (u * v)" unfolding Nr by (simp only: ac_simps)
  then have Nu: "real N * u = x" unfolding uv x_def by simp
  then have "x / u = real N" using upos by (simp add: field_simps)
  then have "\<bar>real (w * 3) / real (4::nat) / 2 powi (e - 52) - real N\<bar> < 1 / 2"
    unfolding x_def u_def by simp
  from dbl_round_near [OF p q e_def [symmetric] _ _ this] e_lo e_hi
  have r: "dbl_round (w * 3) 4 = Fin N (e - 52)" by simp
  have "real N * 2 powi (e - 52) = real (w * 3) / real (4::nat)"
    using Nu unfolding u_def x_def .
  then have "nat \<lfloor>real N * 2 powi (e - 52)\<rfloor> = nat \<lfloor>real (w * 3) / real (4::nat)\<rfloor>"
    by (simp only:)
  also have "\<dots> = w * 3 div 4" by (simp only: floor_divide_of_nat_eq nat_int)
  finally have "float_trunc N (e - 52) = 3 * w div 4"
    by (simp add: float_trunc_real mult.commute)
  then show ?thesis
    by (simp add: three_quarters_def int_truediv_def r)
qed


lemma float_mul_222_not_NaN:
  assumes "x \<noteq> NaN"
  shows "float_mul (Fin 7810930603720704 (- 45)) x \<noteq> NaN"
proof (cases x)
  case (Fin m e)
  then show ?thesis by (simp add: dbl_round_not_NaN split: prod.splits)
qed (use assms in simp_all)

lemma upright_scale_not_NaN: "upright_scale g \<noteq> NaN"
  by (simp add: upright_scale_def float_of_decimal_def float_1_0_def Let_def dbl_round_not_NaN)

lemma three_quarters_not_None: "three_quarters w \<noteq> Inr None"
proof -
  have "dbl_round (w * 3) 4 \<noteq> NaN" by (rule dbl_round_not_NaN)
  then show ?thesis
    by (cases "dbl_round (w * 3) 4") (simp_all add: three_quarters_def int_truediv_def)
qed

lemma upright_opt_sizes:
  assumes "\<not> explicit_size st" "upright_opt g st = Inr st'"
  shows "int_of_float (float_mul (float_mul (float_of_nat base_default_width) float_0_37) (upright_scale g))
           = Inr (Some (width st'))"
    and "three_quarters (width st') = Inr (Some (height st'))"
proof -
  let ?P = "float_mul (float_mul (float_of_nat base_default_width) float_0_37) (upright_scale g)"
  have P: "?P \<noteq> NaN"
    unfolding base_default_width_def float_222 by (rule float_mul_222_not_NaN [OF upright_scale_not_NaN])
  then have "int_of_float ?P \<noteq> Inr None" by (cases ?P) simp_all
  with assms obtain w where w: "int_of_float ?P = Inr (Some w)"
    and rest: "(case three_quarters w of Inl e \<Rightarrow> Inl e | Inr None \<Rightarrow> Inr (st\<lparr>width := w\<rparr>)
                 | Inr (Some h) \<Rightarrow> Inr (st\<lparr>width := w, height := h\<rparr>)) = Inr st'"
    by (auto simp: upright_opt_def upright_scale_def Let_def split: sum.splits option.splits)
  from rest three_quarters_not_None [of w] obtain h where h: "three_quarters w = Inr (Some h)"
    and st': "st' = st\<lparr>width := w, height := h\<rparr>"
    by (auto split: sum.splits option.splits)
  show "int_of_float ?P = Inr (Some (width st'))" using w st' by simp
  show "three_quarters (width st') = Inr (Some (height st'))" using h st' by simp
qed

lemma three_quarters_int:
  assumes "three_quarters w = Inr (Some h)"
  shows "h = nat \<lfloor>float_val (dbl_round (w * 3) 4)\<rfloor>"
proof -
  from assms have "int_of_float (dbl_round (w * 3) 4) = Inr (Some h)"
    by (cases "dbl_round (w * 3) 4") (simp_all add: three_quarters_def int_truediv_def)
  then show ?thesis by (rule int_of_float_floor)
qed

text \<open>
  Claim C6, as amended. For an option \<^verbatim>\<open>upright\<close> or \<^verbatim>\<open>upright=factor\<close> (the factor 1.0 by
  default) read when no explicit size was set earlier, the width is the float product
  \<^verbatim>\<open>600 * 0.37 * factor\<close> cut down to an integer (its floor, not the nearest integer), where
  \<^verbatim>\<open>600 * 0.37\<close> is the float 222; and the height is \<^verbatim>\<open>int(width * 3 / 4)\<close>, the integer part
  of the float nearest to the quotient \<open>3 * width / 4\<close>, which is the floor of \<open>3 * width / 4\<close>
  for every width below \<open>2 ^ 50\<close>.
\<close>

theorem upright_truncates:
  assumes "\<not> explicit_size st" "upright_opt g st = Inr st'"
  shows "width st' = nat \<lfloor>float_val (float_mul (float_mul (float_of_nat base_default_width) float_0_37)
                                     (upright_scale g))\<rfloor> \<and>
         float_val (float_mul (float_of_nat base_default_width) float_0_37) = 222 \<and>
         height st' = nat \<lfloor>float_val (dbl_round (width st' * 3) 4)\<rfloor> \<and>
         (width st' < 2 ^ 50 \<longrightarrow> height st' = 3 * width st' div 4)"
proof (intro conjI impI)
  show "width st' = nat \<lfloor>float_val (float_mul (float_mul (float_of_nat base_default_width) float_0_37)
                                     (upright_scale g))\<rfloor>"
    by (rule int_of_float_floor [OF upright_opt_sizes(1) [OF assms]])
  show "float_val (float_mul (float_of_nat base_default_width) float_0_37) = 222"
    by (simp add: base_default_width_def float_222_val)
  show "height st' = nat \<lfloor>float_val (dbl_round (width st' * 3) 4)\<rfloor>"
    by (rule three_quarters_int [OF upright_opt_sizes(2) [OF assms]])
  assume "width st' < 2 ^ 50"
  from three_quarters_floor [OF this] upright_opt_sizes(2) [OF assms]
  show "height st' = 3 * width st' div 4" by simp
qed

lemma float_0_8: "float_of_decimal ''0.8'' = Fin 7205759403792794 (- 53)"
  by (simp add: float_of_decimal_def is_digit_def ord_def dbl_round_def float_exponent_def scaled_def
      rne_div_def compute_floorlog)

lemma float_222_times_0_8:
  "int_of_float (float_mul (Fin 7810930603720704 (- 45)) (Fin 7205759403792794 (- 53))) = Inr (Some 177)"
  by (simp add: dbl_round_def float_exponent_def scaled_def rne_div_def compute_floorlog float_trunc_def)

lemma upright_scale_0_8: "upright_scale [(1, ''0.8'')] = Fin 7205759403792794 (- 53)"
  by (simp add: upright_scale_def group_truthy_def group_text_def group_def float_0_8)

lemma upright_opt_alt:
  "upright_opt g st =
     (if explicit_size st then Inr st
      else
        (case int_of_float (float_mul (float_mul (float_of_nat base_default_width) float_0_37) (upright_scale g)) of
           Inl e \<Rightarrow> Inl e
         | Inr None \<Rightarrow> Inr st
         | Inr (Some w) \<Rightarrow>
             (case three_quarters w of
                Inl e \<Rightarrow> Inl e
              | Inr None \<Rightarrow> Inr (st\<lparr>width := w\<rparr>)
              | Inr (Some h) \<Rightarrow> Inr (st\<lparr>width := w, height := h\<rparr>))))"
  by (simp add: upright_opt_def upright_scale_def Let_def)

lemma upright_0_8:
  "upright_opt [(1, ''0.8'')] fopts_init = Inr (fopts_init\<lparr>width := 177, height := 132\<rparr>)"
proof -
  have tq: "three_quarters 177 = Inr (Some 132)" using three_quarters_floor [of 177] by simp
  have P: "int_of_float (float_mul (float_mul (float_of_nat base_default_width) float_0_37)
             (upright_scale [(1, ''0.8'')])) = Inr (Some 177)"
    unfolding base_default_width_def float_222 upright_scale_0_8 by (rule float_222_times_0_8)
  have e: "\<not> explicit_size fopts_init" by (simp add: fopts_init_def)
  show ?thesis unfolding upright_opt_alt P using e tq by simp
qed

theorem upright_truncates_witness:
  "nat \<lfloor>float_val (float_mul (float_mul (float_of_nat base_default_width) float_0_37)
                    (upright_scale [(1, ''0.8'')]))\<rfloor> = 177 \<and> 3 * 177 div 4 = (132::nat)"
proof -
  have "\<not> explicit_size fopts_init" by (simp add: fopts_init_def)
  from upright_truncates [OF this upright_0_8] show ?thesis by simp
qed

lemma upright_0_8_match:
  "enumerate_from0 (snd (file_parts ''File:A.png|upright=0.8'')) = [(0, ''upright=0.8'')] \<and>
   strip ''upright=0.8'' = ''upright=0.8'' \<and>
   \<not> startswith (lower ''upright=0.8'') ''alt='' \<and>
   \<not> startswith (lower ''upright=0.8'') ''link='' \<and>
   re_match size_re ''upright=0.8'' = None \<and>
   re_match upright_re ''upright=0.8'' = Some [(1, ''0.8'')]"
  by code_simp

lemma embed_size_0_8: "embed_size ''File:A.png|upright=0.8'' = Some (177, 132)"
  by (simp add: embed_size_def file_options_def upright_0_8_match file_opt_def Let_def
      upright_0_8 [unfolded One_nat_def] add_technical_def)

text \<open>
  The bound on the width is needed: for \<^verbatim>\<open>upright=30000000000003\<close> the width is
  6660000000000666, the quotient \<open>3 * width / 4\<close> is 4995000000000499.5, which no float is, and
  the nearest float is 4995000000000500.
\<close>

lemma float_3e13: "float_of_decimal ''30000000000003'' = Fin 7680000000000768 (- 8)"
  by (simp add: float_of_decimal_def is_digit_def ord_def dbl_round_def float_exponent_def scaled_def
      rne_div_def compute_floorlog)

lemma float_222_times_3e13:
  "int_of_float (float_mul (Fin 7810930603720704 (- 45)) (Fin 7680000000000768 (- 8))) = Inr (Some 6660000000000666)"
  by (simp add: dbl_round_def float_exponent_def scaled_def rne_div_def compute_floorlog float_trunc_def)

lemma three_quarters_large: "three_quarters 6660000000000666 = Inr (Some 4995000000000500)"
  by (simp add: three_quarters_def int_truediv_def dbl_round_def float_exponent_def scaled_def rne_div_def
      compute_floorlog float_trunc_def)


lemma upright_scale_3e13: "upright_scale [(1, ''30000000000003'')] = Fin 7680000000000768 (- 8)"
  by (simp add: upright_scale_def group_truthy_def group_text_def group_def float_3e13)

lemma upright_3e13:
  "upright_opt [(1, ''30000000000003'')] fopts_init
     = Inr (fopts_init\<lparr>width := 6660000000000666, height := 4995000000000500\<rparr>)"
proof -
  have P: "int_of_float (float_mul (float_mul (float_of_nat base_default_width) float_0_37)
             (upright_scale [(1, ''30000000000003'')])) = Inr (Some 6660000000000666)"
    unfolding base_default_width_def float_222 upright_scale_3e13 by (rule float_222_times_3e13)
  have e: "\<not> explicit_size fopts_init" by (simp add: fopts_init_def)
  show ?thesis unfolding upright_opt_alt P using e three_quarters_large by simp
qed

lemma upright_3e13_match:
  "enumerate_from0 (snd (file_parts ''File:A.png|upright=30000000000003'')) = [(0, ''upright=30000000000003'')] \<and>
   strip ''upright=30000000000003'' = ''upright=30000000000003'' \<and>
   \<not> startswith (lower ''upright=30000000000003'') ''alt='' \<and>
   \<not> startswith (lower ''upright=30000000000003'') ''link='' \<and>
   re_match size_re ''upright=30000000000003'' = None \<and>
   re_match upright_re ''upright=30000000000003'' = Some [(1, ''30000000000003'')]"
  by code_simp

lemma embed_size_3e13:
  "embed_size ''File:A.png|upright=30000000000003'' = Some (6660000000000666, 4995000000000500)"
  by (simp add: embed_size_def file_options_def upright_3e13_match file_opt_def Let_def
      upright_3e13 [unfolded One_nat_def] add_technical_def)

lemma upright_large_height_not_floor:
  "map_option snd (embed_size ''File:A.png|upright=30000000000003'')
     \<noteq> Some (3 * 6660000000000666 div 4)"
  by (simp add: embed_size_3e13)

text \<open>
  Claim C6 as stated fails: for \<^verbatim>\<open>upright=0.8\<close> the width is 177, and \<open>600 * 0.37 * 0.8\<close>,
  which is 177.6, rounds to 178.
\<close>

theorem upright_rounds_counterexample:
  "map_option fst (embed_size ''File:A.png|upright=0.8'')
     \<noteq> Some (nat (round (600 * (37 / 100) * (8 / 10) :: real)))"
proof -
  have "round (600 * (37 / 100) * (8 / 10) :: real) = 178" by (simp add: round_def)
  then show ?thesis by (simp add: embed_size_0_8)
qed

subsection \<open>Redirect pages\<close>

lemma matches_Seq_first:
  assumes "matches a s g = (s1, g1) # xs" "matches b s1 g1 = r # ys"
  shows "\<exists>zs. matches (Seq a b) s g = r # zs"
  using assms by simp

lemma star_rests_first:
  assumes "list_all p ws" "s' = [] \<or> \<not> p (hd s')"
  shows "\<exists>xs. star_rests p (ws @ s') = s' # xs"
  using assms
proof (induction ws)
  case Nil
  then show ?case by (cases s') auto
next
  case (Cons w ws)
  then obtain xs where "star_rests p (ws @ s') = s' # xs" by auto
  with Cons.prems show ?case by simp
qed

lemma matches_Star_first:
  assumes "list_all p ws" "s' = [] \<or> \<not> p (hd s')"
  shows "\<exists>xs. matches (Star p) (ws @ s') g = (s', g) # xs"
  using star_rests_first [OF assms] by auto

lemma startswith_ci_append:
  "map lower_char kw = map lower_char t \<Longrightarrow> startswith_ci (kw @ r) t"
proof (induction kw arbitrary: t)
  case Nil
  then show ?case by simp
next
  case (Cons k kw)
  then show ?case by (cases t) auto
qed

lemma matches_LitI_first:
  assumes "map lower_char kw = map lower_char t"
  shows "matches (LitI t) (kw @ r) g = [(r, g)]"
proof -
  have "length kw = length t" using assms by (metis length_map)
  then show ?thesis using startswith_ci_append [OF assms] by simp
qed

lemma matches_Lit_first: "matches (Lit t) (t @ r) g = [(r, g)]"
  by (simp add: startswith_append)

lemma matches_Plus_first:
  assumes "ts \<noteq> []" "list_all p ts" "s' = [] \<or> \<not> p (hd s')"
  shows "\<exists>xs. matches (Plus p) (ts @ s') g = (s', g) # xs"
proof -
  from assms(1) obtain t ts' where ts: "ts = t # ts'" by (cases ts) auto
  with assms(2) have "p t" "list_all p ts'" by simp_all
  from matches_Star_first [OF this(2) assms(3), of g] \<open>p t\<close> show ?thesis
    by (auto simp: Plus_def ts)
qed

lemma matches_Grp_first:
  assumes "matches a (ts @ s') g = (s', g') # xs"
  shows "\<exists>ys. matches (Grp n a) (ts @ s') g = (s', (n, ts) # g') # ys"
  using assms by simp


lemma redirect_keyword: "map lower_char ''#redirect'' = ''#redirect''"
  by code_simp

lemma redirect_no_space: "\<not> is_space CHR ''#'' \<and> \<not> is_space CHR '':'' \<and> \<not> is_space CHR ''[''"
  by code_simp

lemma redirect_match:
  assumes "list_all is_space ws" "lower kw = ''redirect''" "list_all is_space sp"
    "colon = [] \<or> colon = '':''" "target \<noteq> []" "CHR '']'' \<notin> set target"
  shows "re_match REDIRECT_RE (ws @ ''#'' @ kw @ sp @ colon @ ''[['' @ target @ '']]'' @ rest)
           = Some [(1, target)]"
proof -
  let ?s6 = "'']]'' @ rest"
  let ?s5 = "target @ ?s6"
  let ?s4 = "''[['' @ ?s5"
  let ?s3 = "colon @ ?s4"
  let ?s2 = "sp @ ?s3"
  let ?s1 = "(''#'' @ kw) @ ?s2"
  let ?r7 = "Lit '']]''"
  let ?r6 = "Seq (Grp 1 (Plus (\<lambda>c. c \<noteq> CHR '']''))) ?r7"
  let ?r5 = "Seq (Lit ''[['') ?r6"
  let ?r4 = "Seq (Opt (Lit '':'')) ?r5"
  let ?r3 = "Seq (Star is_space) ?r4"
  let ?r2 = "Seq (LitI ''#redirect'') ?r3"
  let ?r1 = "Seq (Star is_space) ?r2"
  have re: "REDIRECT_RE = ?r1" by (simp add: REDIRECT_RE_def)
  have m7: "matches ?r7 ?s6 [(1, target)] = [(rest, [(1, target)])]"
    by (rule matches_Lit_first)
  have "list_all (\<lambda>c. c \<noteq> CHR '']'') target" using assms(6) by (auto simp: list_all_iff)
  from matches_Plus_first [OF assms(5) this, of ?s6 "[]"]
  obtain xs where "matches (Plus (\<lambda>c. c \<noteq> CHR '']'')) ?s5 [] = (?s6, []) # xs" by auto
  from matches_Grp_first [OF this, of 1]
  obtain ys where "matches (Grp 1 (Plus (\<lambda>c. c \<noteq> CHR '']''))) ?s5 [] = (?s6, [(1, target)]) # ys"
    by blast
  from matches_Seq_first [OF this m7]
  obtain z6 where m6: "matches ?r6 ?s5 [] = (rest, [(1, target)]) # z6" by blast
  have "matches (Lit ''[['') ?s4 [] = [(?s5, [])]" by (rule matches_Lit_first)
  from matches_Seq_first [OF this m6]
  obtain z5 where m5: "matches ?r5 ?s4 [] = (rest, [(1, target)]) # z5" by blast
  have "\<exists>o4. matches (Opt (Lit '':'')) ?s3 [] = (?s4, []) # o4"
    using assms(4) by auto
  then obtain o4 where "matches (Opt (Lit '':'')) ?s3 [] = (?s4, []) # o4" by blast
  from matches_Seq_first [OF this m5]
  obtain z4 where m4: "matches ?r4 ?s3 [] = (rest, [(1, target)]) # z4" by blast
  have "?s3 = [] \<or> \<not> is_space (hd ?s3)"
    using assms(4) redirect_no_space by auto
  from matches_Star_first [OF assms(3) this, of "[]"]
  obtain o3 where "matches (Star is_space) ?s2 [] = (?s3, []) # o3" by blast
  from matches_Seq_first [OF this m4]
  obtain z3 where m3: "matches ?r3 ?s2 [] = (rest, [(1, target)]) # z3" by blast
  have "map lower_char (''#'' @ kw) = map lower_char ''#redirect''"
    using assms(2) redirect_keyword by (simp add: lower_def)
  then have "matches (LitI ''#redirect'') ?s1 [] = [(?s2, [])]"
    by (rule matches_LitI_first)
  from matches_Seq_first [OF this m3]
  obtain z2 where m2: "matches ?r2 ?s1 [] = (rest, [(1, target)]) # z2" by blast
  have "?s1 = [] \<or> \<not> is_space (hd ?s1)" using redirect_no_space by simp
  from matches_Star_first [OF assms(1) this, of "[]"]
  obtain o1 where "matches (Star is_space) (ws @ ?s1) [] = (?s1, []) # o1" by blast
  from matches_Seq_first [OF this m2]
  obtain z1 where "matches ?r1 (ws @ ?s1) [] = (rest, [(1, target)]) # z1" by blast
  then show ?thesis unfolding re re_match_def by simp
qed

text \<open>
  Claim C8. A page whose text, once its carriage returns are removed, begins with optional
  whitespace, \<^verbatim>\<open>#REDIRECT\<close> in any case, an optional colon and \<^verbatim>\<open>[[target]]\<close>, converts to
  exactly one block, the redirect notice, and to an empty category list, whatever follows
  in the page.
\<close>

theorem redirect_short_circuits:
  assumes "replace [CHR 0x0D] [] text = ws @ ''#'' @ kw @ sp @ colon @ ''[['' @ target @ '']]'' @ rest"
    and "list_all is_space ws" "lower kw = ''redirect''" "list_all is_space sp"
    and "colon = [] \<or> colon = '':''" "target \<noteq> []" "CHR '']'' \<notin> set target"
  shows "convert lft md title text = Inr (redirect_box (lft (strip target) (strip target)), [])"
proof -
  have "re_match REDIRECT_RE (replace [CHR 0x0D] [] text) = Some [(1, target)]"
    unfolding assms(1) by (rule redirect_match [OF assms(2-7)])
  then show ?thesis
    by (simp add: convert_def Let_def group_text_def group_def)
qed

lemma redirect_page_shape:
  "replace [CHR 0x0D] [] redirect_page =
     [] @ ''#'' @ ''REDIRECT'' @ [] @ [] @ ''[['' @ ''Target Page'' @ '']]'' @ ([CHR 0x0A] @ ''Text. [[Category:Foo]]'')
   \<and> lower ''REDIRECT'' = ''redirect'' \<and> strip ''Target Page'' = ''Target Page''"
  by code_simp

theorem redirect_short_circuits_witness:
  "convert (\<lambda>t l. l) Html ''Old name'' redirect_page = Inr (redirect_box ''Target Page'', [])"
proof -
  have "convert (\<lambda>t l. l) Html ''Old name'' redirect_page
          = Inr (redirect_box ((\<lambda>t l. l) (strip ''Target Page'') (strip ''Target Page'')), [])"
    by (rule redirect_short_circuits [OF conjunct1 [OF redirect_page_shape]])
       (simp_all add: redirect_page_shape)
  then show ?thesis by (simp add: redirect_page_shape)
qed

subsection \<open>Headings\<close>











lemma paragraph_is_inlined:
  "convert (\<lambda>t l. ''<a>'' @ l @ ''</a>'') Html title
     (''See [[Main Page]] in '' @ sq @ sq @ ''italics'' @ sq @ sq)
   = Inr (''<p>See <a>Main Page</a> in <em>italics</em></p>'', [])"
  by code_simp

lemma list_item_is_inlined:
  "convert (\<lambda>t l. ''<a>'' @ l @ ''</a>'') Html title
     (''* See [[Main Page]] in '' @ sq @ sq @ ''italics'' @ sq @ sq)
   = Inr (''<ul>'' @ [CHR 0x0A] @ ''<li>See <a>Main Page</a> in <em>italics</em></li>'' @ [CHR 0x0A] @ ''</ul>'', [])"
  by code_simp

lemma heading_page:
  "convert lft md title heading_line = Inr (heading_html, [])"
  by code_simp

text \<open>
  Category links are taken out of a normal-mode line before the heading pattern is tried, so
  one inside a heading is recorded and is no part of the heading text.
\<close>

lemma heading_category_is_recorded:
  "convert lft md title ''== A [[Category:X]] =='' =
     Inr (''<h2 id='' @ sq @ ''a'' @ sq @ ''>A</h2>'', [''X''])"
  by code_simp

subsection \<open>Collapsible blocks\<close>

lemma collapsible_line_keeps_categories:
  assumes "in_collapsible_branch raw st" "convert_line inl md raw st = Inr st'"
  shows "categories st' = categories st \<and> cat_set st' = cat_set st"
  using assms
  by (auto simp: in_collapsible_branch_def convert_line_def finish_collapse_def emit_def Let_def
      split: if_splits sum.splits)

text \<open>
  Claim C9. Lines that go to a collapsible block, the one that opens it, those added to it
  and the one that closes it, leave the list and the set of the recorded categories as they
  were, whatever the lines hold.
\<close>

theorem collapsible_lines_record_no_category:
  assumes "collapsible_run inl md ls st" "convert_lines inl md ls st = Inr st'"
  shows "categories st' = categories st \<and> cat_set st' = cat_set st"
  using assms
proof (induction ls arbitrary: st)
  case Nil
  then show ?case by simp
next
  case (Cons raw raws)
  from Cons.prems(2) obtain st1 where 1: "convert_line inl md raw st = Inr st1"
    and 2: "convert_lines inl md raws st1 = Inr st'"
    by (auto split: sum.splits)
  from Cons.prems(1) 1 have b: "in_collapsible_branch raw st" and r: "collapsible_run inl md raws st1"
    by simp_all
  from collapsible_line_keeps_categories [OF b 1] Cons.IH [OF r 2] show ?case by simp
qed

lemma hidden_lines_run: "collapsible_run (inline (\<lambda>t l. l) Html) Html hidden_lines cstate_init"
  by code_simp

lemma hidden_lines_return:
  "(case convert_lines (inline (\<lambda>t l. l) Html) Html hidden_lines cstate_init of
      Inl e \<Rightarrow> False | Inr st \<Rightarrow> True)"
  by code_simp

theorem collapsible_lines_record_no_category_witness:
  "collapsible_run (inline (\<lambda>t l. l) Html) Html hidden_lines cstate_init \<and>
   categories_of (convert_lines (inline (\<lambda>t l. l) Html) Html hidden_lines cstate_init) = Some []"
proof -
  from hidden_lines_return obtain st'
    where r: "convert_lines (inline (\<lambda>t l. l) Html) Html hidden_lines cstate_init = Inr st'"
    by (auto split: sum.splits)
  from collapsible_lines_record_no_category [OF hidden_lines_run r]
  have "categories st' = []" by (simp add: cstate_init_def)
  then show ?thesis using hidden_lines_run by (simp add: categories_of_def r)
qed

lemma collapsible_page_has_no_category:
  "convert (\<lambda>t l. l) Html title (join [CHR 0x0A] hidden_lines)
     = Inr (''<aside class='' @ sq @ ''collapsible'' @ sq @ ''>'' @ [CHR 0x0A]
            @ ''<a href='' @ sq @ ''category-hidden.html'' @ sq @ ''>Category:Hidden</a>'' @ [CHR 0x0A]
            @ ''</aside>'', [])"
  by code_simp

lemma normal_line_has_category:
  "convert lft md title ''[[Category:Hidden]]'' = Inr ([], [''Hidden''])"
  by code_simp

lemma table_cell_has_category:
  "map_sum id snd (convert (\<lambda>t l. l) Html title
     (''{|'' @ [CHR 0x0A] @ ''| a [[Category:Hidden]]'' @ [CHR 0x0A] @ ''|}'')) = Inr [''Hidden'']"
  by code_simp

subsection \<open>Category slugs\<close>

lemma category_final_slug_fresh: "category_final_slug cat used_slugs |\<notin>| used_slugs"
  by (simp add: category_final_slug_def Let_def slugify_loop_fresh)

lemma category_href_misses_file:
  assumes "category_slug cat |\<in>| used_slugs"
  shows "category_href cat \<noteq> category_file_name cat used_slugs"
proof -
  have "category_final_slug cat used_slugs \<noteq> category_slug cat"
    using assms category_final_slug_fresh [of cat used_slugs] by auto
  then show ?thesis by (simp add: category_href_def category_file_name_def)
qed

lemma category_foo_slug: "category_slug ''Foo'' = ''category-foo''"
  by code_simp

lemma category_foo_page_slug: "slug_base ''Category:Foo'' = ''category-foo''"
  by code_simp

lemma bar_slug_core: "slug_core ''Bar'' = ''bar''"
  by code_simp

lemma bar_page:
  "convert lft md ''Bar'' ''Text. [[Category:Foo]]'' = Inr (''<p>Text. </p>'', [''Foo''])"
  by code_simp

lemma foo_wiki_slugs:
  "assign_slugs [''Category:Foo'', ''Bar''] {||} = ([''category-foo'', ''bar''], {|''bar'', ''category-foo''|})"
proof -
  have 1: "slugify ''Category:Foo'' {||} = (''category-foo'', {|''category-foo''|})"
    by (simp add: slugify_empty category_foo_page_slug)
  have 2: "slugify ''Bar'' {|''category-foo''|} = (''bar'', {|''bar'', ''category-foo''|})"
    by (simp add: slugify_def Let_def bar_slug_core slugify_loop_unused)
  show ?thesis by (simp add: 1 2)
qed

lemma foo_category_file:
  assumes "''category-foo'' |\<in>| used_slugs" "''category-foo-2'' |\<notin>| used_slugs"
  shows "category_file_name ''Foo'' used_slugs = ''category-foo-2.html''"
proof -
  have "slugify_loop ''category-foo'' used_slugs ''category-foo'' 2
          = slugify_loop ''category-foo'' used_slugs (numbered ''category-foo'' 2) 3"
    using assms(1) by (subst slugify_loop.simps) simp
  also have "\<dots> = numbered ''category-foo'' 2"
    using assms(2) by (intro slugify_loop_unused) (simp add: numbered_def str_nat_2)
  finally show ?thesis
    by (simp add: category_file_name_def category_final_slug_def category_foo_slug numbered_def str_nat_2)
qed

text \<open>
  Claim C4 fails on a wiki of two pages, \<^verbatim>\<open>Category:Foo\<close> and a page \<^verbatim>\<open>Bar\<close> in the category
  \<^verbatim>\<open>Foo\<close>: the page \<^verbatim>\<open>Category:Foo\<close> is written to \<^verbatim>\<open>category-foo.html\<close>, the file of the
  category is moved to \<^verbatim>\<open>category-foo-2.html\<close>, and the links to the category go to
  \<^verbatim>\<open>category-foo.html\<close>, the page.
\<close>

theorem category_link_hits_page:
  "assign_slugs [''Category:Foo'', ''Bar''] {||} = ([''category-foo'', ''bar''], {|''bar'', ''category-foo''|}) \<and>
   convert lft md ''Bar'' ''Text. [[Category:Foo]]'' = Inr (''<p>Text. </p>'', [''Foo'']) \<and>
   category_href ''Foo'' = page_file_name ''category-foo'' \<and>
   category_file_name ''Foo'' {|''bar'', ''category-foo''|} = ''category-foo-2.html''"
proof (intro conjI)
  show "assign_slugs [''Category:Foo'', ''Bar''] {||} = ([''category-foo'', ''bar''], {|''bar'', ''category-foo''|})"
    by (rule foo_wiki_slugs)
  show "convert lft md ''Bar'' ''Text. [[Category:Foo]]'' = Inr (''<p>Text. </p>'', [''Foo''])"
    by (rule bar_page)
  show "category_href ''Foo'' = page_file_name ''category-foo''"
    by (simp add: category_href_def page_file_name_def category_foo_slug)
  show "category_file_name ''Foo'' {|''bar'', ''category-foo''|} = ''category-foo-2.html''"
    by (rule foo_category_file) simp_all
qed

end
